theory Spec2Isabelle
  imports Main "HOL-Library.Word"
begin

section \<open>JavaScript strings and values\<close>

text \<open>
  A JavaScript string is a sequence of UTF-16 code units. The regular expression of the
  key sanitizer has no \<open>u\<close> flag, so it works on code units, and so does this model.
  \<open>str\<close> embeds an ASCII literal.
\<close>

type_synonym code_unit = "16 word"
type_synonym jsstring = "code_unit list"

definition str :: "string \<Rightarrow> jsstring" where
  "str cs = map (\<lambda>c. of_nat (of_char c)) cs"

text \<open>
  A Number value is represented by what \<open>Number::toString\<close> of ECMAScript reads off it:
  \<open>NaN\<close>, the two infinities, or a sign with the integers \<open>s\<close> and \<open>n\<close> of that
  definition. The digits of \<open>s\<close> are the shortest decimal digits that convert back to
  the value and \<open>n\<close> places the decimal point: the magnitude is \<open>0.d1d2...dk * 10^n\<close>
  for the digits \<open>d1...dk\<close> of \<open>s\<close>. So 27 is \<open>Finite False 27 2\<close>, 4.5 is
  \<open>Finite False 45 1\<close>, \<open>2^63\<close> is \<open>Finite False 9223372036854776 19\<close> and
  \<open>10^21\<close> is \<open>Finite False 1 22\<close>. Trailing zeros of \<open>s\<close> do not matter, and
  \<open>s = 0\<close> is zero of either sign. Which digits an engine picks for a binary double
  (ECMAScript leaves the last digit open) is floating-point arithmetic and stays outside
  the model: every Number value has such a representation, and the model prints each
  representation as ECMAScript prescribes.
\<close>

datatype jsnumber = NaN | PosInfinity | NegInfinity | Finite bool nat int

fun isFinite :: "jsnumber \<Rightarrow> bool" where
  "isFinite (Finite negative s n) = True"
| "isFinite NaN = False"
| "isFinite PosInfinity = False"
| "isFinite NegInfinity = False"

text \<open>
  The values a parsed YAML frontmatter holds: strings, numbers, booleans, null, arrays
  and nested objects. An object is the list of its own enumerable properties in
  iteration order.
\<close>

datatype jsval =
    JString jsstring
  | JNumber jsnumber
  | JBoolean bool
  | JNull
  | JArray "jsval list"
  | JObject "(jsstring \<times> jsval) list"

type_synonym frontmatter = "(jsstring \<times> jsval) list"

text \<open>\<open>typeof value\<close>; note that \<open>typeof null\<close> is \<open>"object"\<close>.\<close>

fun typeof :: "jsval \<Rightarrow> string" where
  "typeof (JString s) = ''string''"
| "typeof (JNumber n) = ''number''"
| "typeof (JBoolean b) = ''boolean''"
| "typeof JNull = ''object''"
| "typeof (JArray xs) = ''object''"
| "typeof (JObject ps) = ''object''"

subsection \<open>Number to string\<close>

text \<open>The decimal digits of a natural number, and the number a digit string denotes.\<close>

fun decimal :: "nat \<Rightarrow> jsstring" where
  "decimal n =
     (if n < 10 then [0x30 + of_nat n]
      else decimal (n div 10) @ [0x30 + of_nat (n mod 10)])"

declare decimal.simps [simp del]

definition digitsValue :: "jsstring \<Rightarrow> nat" where
  "digitsValue ds = foldl (\<lambda>a d. 10 * a + unat (d - 0x30)) 0 ds"

fun stripZeros :: "nat \<Rightarrow> nat" where
  "stripZeros s = (if s = 0 then 0 else if s mod 10 = 0 then stripZeros (s div 10) else s)"

declare stripZeros.simps [simp del]

text \<open>
  \<open>Number::toString(x)\<close> in radix 10 for a positive finite \<open>x\<close> with the \<open>k\<close> digits
  \<open>digits\<close> and the exponent \<open>n\<close>. For \<open>-5 \<le> n \<le> 21\<close>: the digits followed by
  \<open>n - k\<close> zeros when \<open>k \<le> n\<close>; the first \<open>n\<close> digits, a point and the rest when
  \<open>0 < n < k\<close>; \<open>0.\<close>, \<open>-n\<close> zeros and the digits when \<open>n \<le> 0\<close>. Otherwise the
  exponential form: the first digit, a point and the other digits if there are any, then
  \<open>e\<close>, the sign of \<open>n - 1\<close> and the digits of its magnitude.
\<close>

definition positiveToString :: "jsstring \<Rightarrow> int \<Rightarrow> jsstring" where
  "positiveToString digits n =
     (let k = int (length digits) in
      if - 5 \<le> n \<and> n \<le> 21 then
        (if k \<le> n then digits @ replicate (nat (n - k)) 0x30
         else if 0 < n then take (nat n) digits @ [0x2E] @ drop (nat n) digits
         else [0x30, 0x2E] @ replicate (nat (- n)) 0x30 @ digits)
      else
        (let e = n - 1;
             exponent = [0x65, if e < 0 then 0x2D else 0x2B] @ decimal (nat \<bar>e\<bar>)
         in if k = 1 then digits @ exponent
            else take 1 digits @ [0x2E] @ drop 1 digits @ exponent))"

text \<open>
  \<open>Number::toString\<close>: \<open>NaN\<close>; \<open>0\<close> for a zero of either sign; a minus sign before
  the text of the magnitude; \<open>Infinity\<close>.
\<close>

fun Number_toString :: "jsnumber \<Rightarrow> jsstring" where
  "Number_toString NaN = str ''NaN''"
| "Number_toString PosInfinity = str ''Infinity''"
| "Number_toString NegInfinity = str ''-Infinity''"
| "Number_toString (Finite negative s n) =
     (if s = 0 then str ''0''
      else (if negative then [0x2D] else []) @ positiveToString (decimal (stripZeros s)) n)"

subsection \<open>\<open>Array.prototype.join\<close>\<close>

fun join :: "jsstring \<Rightarrow> jsstring list \<Rightarrow> jsstring" where
  "join sep [] = []"
| "join sep [x] = x"
| "join sep (x # y # ys) = x @ sep @ join sep (y # ys)"

subsection \<open>\<open>JSON.stringify\<close>\<close>

text \<open>
  \<open>JSON.stringify(value)\<close> with no replacer and no indentation, as ECMAScript defines
  it: strings are quoted, with the two-character escapes for backspace, tab, line feed,
  form feed, carriage return, the quote and the backslash, and a \<open>\uXXXX\<close> escape
  (lower-case hexadecimal) for every other control character and every unpaired
  surrogate; array elements and object members are separated by a comma with no space.
  A finite number is its \<open>Number::toString\<close> text; \<open>NaN\<close> and the infinities are
  \<open>null\<close>.
\<close>

definition hexDigit :: "code_unit \<Rightarrow> code_unit" where
  "hexDigit d = (if d < 10 then 0x30 + d else 0x61 + (d - 10))"

definition unicodeEscape :: "code_unit \<Rightarrow> jsstring" where
  "unicodeEscape c =
     [0x5C, 0x75, hexDigit (drop_bit 12 c), hexDigit (take_bit 4 (drop_bit 8 c)),
      hexDigit (take_bit 4 (drop_bit 4 c)), hexDigit (take_bit 4 c)]"

definition isLeadingSurrogate :: "code_unit \<Rightarrow> bool" where
  "isLeadingSurrogate c \<longleftrightarrow> 0xD800 \<le> c \<and> c \<le> 0xDBFF"

definition isTrailingSurrogate :: "code_unit \<Rightarrow> bool" where
  "isTrailingSurrogate c \<longleftrightarrow> 0xDC00 \<le> c \<and> c \<le> 0xDFFF"

definition quoteUnit :: "code_unit \<Rightarrow> jsstring" where
  "quoteUnit c =
     (if c = 0x08 then [0x5C, 0x62]
      else if c = 0x09 then [0x5C, 0x74]
      else if c = 0x0A then [0x5C, 0x6E]
      else if c = 0x0C then [0x5C, 0x66]
      else if c = 0x0D then [0x5C, 0x72]
      else if c = 0x22 then [0x5C, 0x22]
      else if c = 0x5C then [0x5C, 0x5C]
      else if c < 0x20 \<or> isLeadingSurrogate c \<or> isTrailingSurrogate c then unicodeEscape c
      else [c])"

fun quoteUnits :: "jsstring \<Rightarrow> jsstring" where
  "quoteUnits [] = []"
| "quoteUnits [c] = quoteUnit c"
| "quoteUnits (c # d # cs) =
     (if isLeadingSurrogate c \<and> isTrailingSurrogate d then c # d # quoteUnits cs
      else quoteUnit c @ quoteUnits (d # cs))"

definition quoteJSONString :: "jsstring \<Rightarrow> jsstring" where
  "quoteJSONString s = [0x22] @ quoteUnits s @ [0x22]"

fun JSON_stringify :: "jsval \<Rightarrow> jsstring" where
  "JSON_stringify (JString s) = quoteJSONString s"
| "JSON_stringify (JNumber x) = (if isFinite x then Number_toString x else str ''null'')"
| "JSON_stringify (JBoolean b) = (if b then str ''true'' else str ''false'')"
| "JSON_stringify JNull = str ''null''"
| "JSON_stringify (JArray xs) = [0x5B] @ join [0x2C] (map JSON_stringify xs) @ [0x5D]"
| "JSON_stringify (JObject ps) =
     [0x7B] @ join [0x2C] (map (\<lambda>(k, v). quoteJSONString k @ [0x3A] @ JSON_stringify v) ps)
       @ [0x7D]"

subsection \<open>\<open>String(value)\<close> and \<open>value.toString()\<close>\<close>

text \<open>
  \<open>String(value)\<close>: a string is itself, a number its \<open>Number::toString\<close> text, a boolean
  \<open>true\<close> or \<open>false\<close>, null \<open>null\<close>; an array is its elements joined by commas
  (null elements as the empty string) and a plain object is \<open>[object Object]\<close>. On
  strings, numbers and booleans \<open>value.toString()\<close> is the same function.
\<close>

fun String_js :: "jsval \<Rightarrow> jsstring" where
  "String_js (JString s) = s"
| "String_js (JNumber n) = Number_toString n"
| "String_js (JBoolean b) = (if b then str ''true'' else str ''false'')"
| "String_js JNull = str ''null''"
| "String_js (JArray xs) = join [0x2C] (map (\<lambda>x. if x = JNull then [] else String_js x) xs)"
| "String_js (JObject ps) = str ''[object Object]''"

subsection \<open>Key sanitization\<close>

text \<open>
  The character class \<open>[a-zA-Z0-9\-]\<close> of the sanitizer, and
  \<open>key.replace(/[^a-zA-Z0-9\-]/g, "-")\<close>.
\<close>

definition isKeyChar :: "code_unit \<Rightarrow> bool" where
  "isKeyChar c \<longleftrightarrow>
     (0x61 \<le> c \<and> c \<le> 0x7A) \<or> (0x41 \<le> c \<and> c \<le> 0x5A) \<or> (0x30 \<le> c \<and> c \<le> 0x39) \<or> c = 0x2D"

definition replaceNonKeyChars :: "jsstring \<Rightarrow> jsstring" where
  "replaceNonKeyChars key = map (\<lambda>c. if isKeyChar c then c else 0x2D) key"

text \<open>
  \<open>String.prototype.toLowerCase\<close>. Its Unicode table is abridged to the ASCII letters
  and the two code points whose lower-case form contains an ASCII letter: U+0130
  (capital I with dot above, lower case \<open>i\<close> followed by U+0307) and U+212A
  (the Kelvin sign, lower case \<open>k\<close>). Every other code unit is left as it is. The
  source applies \<open>toLowerCase\<close> to strings over \<open>[a-zA-Z0-9-]\<close> only, where the
  abridged table is the whole of it.
\<close>

definition toLowerCase_unit :: "code_unit \<Rightarrow> jsstring" where
  "toLowerCase_unit c =
     (if 0x41 \<le> c \<and> c \<le> 0x5A then [c + 0x20]
      else if c = 0x0130 then [0x69, 0x0307]
      else if c = 0x212A then [0x6B]
      else [c])"

definition toLowerCase :: "jsstring \<Rightarrow> jsstring" where
  "toLowerCase s = concat (map toLowerCase_unit s)"

text \<open>
  The sanitizer of both source files:
  \<open>key.replace(/[^a-zA-Z0-9\-]/g, "-").toLowerCase()\<close>.
\<close>

definition sanitizeKey :: "jsstring \<Rightarrow> jsstring" where
  "sanitizeKey key = toLowerCase (replaceNonKeyChars key)"

text \<open>The template literal \<open>`data-${key}`\<close>.\<close>

definition dataName :: "jsstring \<Rightarrow> jsstring" where
  "dataName key = str ''data-'' @ key"

text \<open>
  The specification's wording of the sanitizer, for comparison with \<open>sanitizeKey\<close>:
  lower-case the key, then replace every character that is not an ASCII letter, digit
  or hyphen with a hyphen.
\<close>

definition spec_sanitizeKey :: "jsstring \<Rightarrow> jsstring" where
  "spec_sanitizeKey key = replaceNonKeyChars (toLowerCase key)"

section \<open>The DOM, the workspace and the plugin state\<close>

text \<open>
  An element is known by its identity. The plugin's state is the attribute map of every
  element (the part of the DOM the plugin touches), the \<open>appliedAttributes\<close> WeakMap from
  elements to key lists, and the sequence of calls the plugin has made to the element
  attribute primitives \<open>setAttribute\<close> and \<open>removeAttribute\<close>. The primitives
  are those of an HTML element for names that are valid and in lower case, the only names
  the plugin passes: \<open>setAttribute\<close> adds the attribute or replaces its value,
  \<open>removeAttribute\<close> removes it if present, neither raises.
\<close>

type_synonym element = nat

datatype dom_call =
    SetAttribute element jsstring jsstring
  | RemoveAttribute element jsstring

record plugin_state =
  attributes :: "element \<Rightarrow> jsstring \<rightharpoonup> jsstring"
  appliedAttributes :: "element \<rightharpoonup> jsstring list"
  domCalls :: "dom_call list"

definition setAttribute :: "element \<Rightarrow> jsstring \<Rightarrow> jsstring \<Rightarrow> plugin_state \<Rightarrow> plugin_state" where
  "setAttribute el name v s =
     s\<lparr>attributes := (attributes s)(el := (attributes s el)(name \<mapsto> v)),
       domCalls := domCalls s @ [SetAttribute el name v]\<rparr>"

definition removeAttribute :: "element \<Rightarrow> jsstring \<Rightarrow> plugin_state \<Rightarrow> plugin_state" where
  "removeAttribute el name s =
     s\<lparr>attributes := (attributes s)(el := (attributes s el)(name := None)),
       domCalls := domCalls s @ [RemoveAttribute el name]\<rparr>"

text \<open>
  A file (\<open>TFile\<close>) has an object identity and a path. A leaf is seen through what the
  source reads of it: whether \<open>leaf.view\<close> is a \<open>MarkdownView\<close>, \<open>leaf.view.file\<close>,
  \<open>leaf.view.containerEl\<close>, and the result of
  \<open>leaf.view.containerEl.querySelector(".workspace-leaf-content")\<close>. The application is
  \<open>workspace.getLeavesOfType("markdown")\<close> and
  \<open>metadataCache.getFileCache(file)?.frontmatter\<close>.
\<close>

record tfile =
  objectId :: nat
  path :: jsstring

record leaf =
  viewIsMarkdownView :: bool
  viewFile :: "tfile option"
  containerEl :: "element option"
  leafContentQuery :: "element option"

record app =
  leavesOfTypeMarkdown :: "leaf list"
  frontmatterOf :: "tfile \<Rightarrow> frontmatter option"

section \<open>The plugin with the prohibited attribute names\<close>

text \<open>The source file that declares \<open>prohibitedAttributeNames\<close>.\<close>

definition prohibitedAttributeNames :: "jsstring list" where
  "prohibitedAttributeNames = [str ''data-type'', str ''data-mode'']"

definition clearAttributes :: "element \<Rightarrow> plugin_state \<Rightarrow> plugin_state" where
  "clearAttributes el s =
     (case appliedAttributes s el of
        None \<Rightarrow> s
      | Some addedKeys \<Rightarrow>
          (let s' = foldl (\<lambda>t key.
                      let htmlAtrrib = dataName key in
                      if htmlAtrrib \<in> set prohibitedAttributeNames then t
                      else removeAttribute el htmlAtrrib t) s addedKeys
           in s'\<lparr>appliedAttributes := (appliedAttributes s')(el := None)\<rparr>))"

definition processValue :: "jsval \<Rightarrow> jsstring" where
  "processValue v = (if typeof v = ''object'' then JSON_stringify v else String_js v)"

text \<open>
  The \<open>for ... in\<close> loop of \<open>applyAttributes\<close>, carrying the element's state and
  \<open>newKeys\<close>.
\<close>

fun applyLoop :: "element \<Rightarrow> frontmatter \<Rightarrow> plugin_state \<times> jsstring list
    \<Rightarrow> plugin_state \<times> jsstring list" where
  "applyLoop el [] acc = acc"
| "applyLoop el ((key, v) # rest) (s, newKeys) =
     (let processedValue = processValue v;
          attributeKey = sanitizeKey key;
          htmlAtrrib = dataName attributeKey
      in if htmlAtrrib \<in> set prohibitedAttributeNames then applyLoop el rest (s, newKeys)
         else applyLoop el rest
                (setAttribute el htmlAtrrib processedValue s, newKeys @ [attributeKey]))"

definition applyAttributes :: "app \<Rightarrow> tfile option \<Rightarrow> leaf option \<Rightarrow> plugin_state \<Rightarrow> plugin_state" where
  "applyAttributes ap file lf s =
     (case (file, lf) of
        (Some f, Some l) \<Rightarrow>
          (case containerEl l of
             None \<Rightarrow> s
           | Some leafContentEl \<Rightarrow>
               (let s1 = clearAttributes leafContentEl s in
                case frontmatterOf ap f of
                  None \<Rightarrow> s1
                | Some fm \<Rightarrow>
                    (let (s2, newKeys) = applyLoop leafContentEl fm (s1, []) in
                     if length newKeys > 0
                     then s2\<lparr>appliedAttributes := (appliedAttributes s2)(leafContentEl \<mapsto> newKeys)\<rparr>
                     else s2)))
      | _ \<Rightarrow> s)"

definition handleMetadataChange :: "app \<Rightarrow> tfile \<Rightarrow> plugin_state \<Rightarrow> plugin_state" where
  "handleMetadataChange ap file s =
     foldl (\<lambda>t l.
        if \<not> viewIsMarkdownView l then t
        else (case viewFile l of
                None \<Rightarrow> t
              | Some vf \<Rightarrow> if path vf = path file then applyAttributes ap (Some file) (Some l) t
                           else t))
       s (leavesOfTypeMarkdown ap)"

section \<open>The plugin of \<open>src/main.ts\<close>\<close>

text \<open>
  The second source file has no prohibited names, resolves the target element with
  \<open>querySelector\<close>, drops the key \<open>position\<close> and chooses the serialization by three
  branches.
\<close>

definition clearAttributes_src :: "element \<Rightarrow> plugin_state \<Rightarrow> plugin_state" where
  "clearAttributes_src el s =
     (case appliedAttributes s el of
        None \<Rightarrow> s
      | Some oldKeys \<Rightarrow>
          (let s' = foldl (\<lambda>t key. removeAttribute el (dataName key) t) s oldKeys
           in s'\<lparr>appliedAttributes := (appliedAttributes s')(el := None)\<rparr>))"

definition processValue_src :: "jsval \<Rightarrow> jsstring" where
  "processValue_src v =
     (if typeof v = ''string'' \<or> typeof v = ''number'' \<or> typeof v = ''boolean'' then String_js v
      else if v \<noteq> JNull \<and> typeof v = ''object'' then JSON_stringify v
      else String_js v)"

text \<open>\<open>const { position, ...restFrontmatter } = frontmatter\<close>.\<close>

definition restFrontmatter :: "frontmatter \<Rightarrow> frontmatter" where
  "restFrontmatter fm = filter (\<lambda>(key, v). key \<noteq> str ''position'') fm"

fun applyLoop_src :: "element \<Rightarrow> frontmatter \<Rightarrow> plugin_state \<times> jsstring list
    \<Rightarrow> plugin_state \<times> jsstring list" where
  "applyLoop_src el [] acc = acc"
| "applyLoop_src el ((key, v) # rest) (s, newKeys) =
     (let processedValue = processValue_src v;
          attributeKey = sanitizeKey key
      in applyLoop_src el rest
           (setAttribute el (dataName attributeKey) processedValue s, newKeys @ [attributeKey]))"

definition applyAttributes_src :: "app \<Rightarrow> tfile option \<Rightarrow> leaf option \<Rightarrow> plugin_state \<Rightarrow> plugin_state" where
  "applyAttributes_src ap file lf s =
     (case (file, lf) of
        (Some f, Some l) \<Rightarrow>
          (case leafContentQuery l of
             None \<Rightarrow> s
           | Some leafContentEl \<Rightarrow>
               (let s1 = clearAttributes_src leafContentEl s in
                case frontmatterOf ap f of
                  None \<Rightarrow> s1
                | Some fm \<Rightarrow>
                    (let (s2, newKeys) = applyLoop_src leafContentEl (restFrontmatter fm) (s1, []) in
                     if length newKeys > 0
                     then s2\<lparr>appliedAttributes := (appliedAttributes s2)(leafContentEl \<mapsto> newKeys)\<rparr>
                     else s2)))
      | _ \<Rightarrow> s)"

definition handleMetadataChange_src :: "app \<Rightarrow> tfile \<Rightarrow> plugin_state \<Rightarrow> plugin_state" where
  "handleMetadataChange_src ap file s =
     foldl (\<lambda>t l.
        if \<not> viewIsMarkdownView l then t
        else (case viewFile l of
                None \<Rightarrow> t
              | Some vf \<Rightarrow> if path vf = path file then applyAttributes_src ap (Some file) (Some l) t
                           else t))
       s (leavesOfTypeMarkdown ap)"

section \<open>Runs of the plugin\<close>

text \<open>
  At start-up the WeakMap is empty and no call has been made; the elements carry
  whatever attributes the host gave them. A run is any sequence of calls of
  \<open>applyAttributes\<close> and \<open>clearAttributes\<close>, each apply with the application as it is at
  that moment.
\<close>

definition initial :: "(element \<Rightarrow> jsstring \<rightharpoonup> jsstring) \<Rightarrow> plugin_state" where
  "initial hostAttributes =
     \<lparr>attributes = hostAttributes, appliedAttributes = Map.empty, domCalls = []\<rparr>"

datatype call =
    ApplyAttributes app "tfile option" "leaf option"
  | ClearAttributes element

fun exec :: "call \<Rightarrow> plugin_state \<Rightarrow> plugin_state" where
  "exec (ApplyAttributes ap file lf) s = applyAttributes ap file lf s"
| "exec (ClearAttributes el) s = clearAttributes el s"

fun exec_src :: "call \<Rightarrow> plugin_state \<Rightarrow> plugin_state" where
  "exec_src (ApplyAttributes ap file lf) s = applyAttributes_src ap file lf s"
| "exec_src (ClearAttributes el) s = clearAttributes_src el s"

definition run :: "call list \<Rightarrow> plugin_state \<Rightarrow> plugin_state" where
  "run cs s = foldl (\<lambda>t c. exec c t) s cs"

definition run_src :: "call list \<Rightarrow> plugin_state \<Rightarrow> plugin_state" where
  "run_src cs s = foldl (\<lambda>t c. exec_src c t) s cs"

text \<open>
  The attribute names the plugin has written onto an element and not removed since,
  read off the calls it made; and the names its applied-attribute record stands for.
\<close>

fun writtenStep :: "element \<Rightarrow> jsstring set \<Rightarrow> dom_call \<Rightarrow> jsstring set" where
  "writtenStep el W (SetAttribute e name v) = (if e = el then insert name W else W)"
| "writtenStep el W (RemoveAttribute e name) = (if e = el then W - {name} else W)"

definition written :: "dom_call list \<Rightarrow> element \<Rightarrow> jsstring set" where
  "written cs el = foldl (writtenStep el) {} cs"

text \<open>The attribute name a call to an attribute primitive is about.\<close>

fun callName :: "dom_call \<Rightarrow> jsstring" where
  "callName (SetAttribute e name v) = name"
| "callName (RemoveAttribute e name) = name"

text \<open>
  The values that a sequence of calls sets one attribute of one element to, in order.
\<close>

fun valuesSet :: "element \<Rightarrow> jsstring \<Rightarrow> dom_call list \<Rightarrow> jsstring list" where
  "valuesSet el name [] = []"
| "valuesSet el name (SetAttribute e m v # cs) =
     (if e = el \<and> m = name then v # valuesSet el name cs else valuesSet el name cs)"
| "valuesSet el name (RemoveAttribute e m # cs) = valuesSet el name cs"

definition recordedNames :: "plugin_state \<Rightarrow> element \<Rightarrow> jsstring set" where
  "recordedNames s el =
     (case appliedAttributes s el of None \<Rightarrow> {} | Some keys \<Rightarrow> dataName ` set keys)"

text \<open>
  A leaf shows a file: its view is a \<open>MarkdownView\<close> whose file has the path of the given
  file.
\<close>

definition showsPath :: "tfile \<Rightarrow> leaf \<Rightarrow> bool" where
  "showsPath file l \<longleftrightarrow> viewIsMarkdownView l \<and> map_option path (viewFile l) = Some (path file)"

section \<open>Closed forms of the loops\<close>

text \<open>
  What the loops of the two source files amount to, for the proofs: a list of attribute
  removals followed by a list of attribute writes on one element. \<open>keptEntries\<close> are
  the frontmatter entries the first file's loop does not skip, \<open>attributeWrites\<close> the
  \<open>setAttribute\<close> calls it makes and \<open>appliedKeys\<close> its \<open>newKeys\<close>;
  \<open>removableNames\<close> are the names \<open>clearAttributes\<close> removes for a key list.
\<close>

definition setAll :: "element \<Rightarrow> (jsstring \<times> jsstring) list \<Rightarrow> plugin_state \<Rightarrow> plugin_state" where
  "setAll el ws s = foldl (\<lambda>t (name, v). setAttribute el name v t) s ws"

definition removeAll :: "element \<Rightarrow> jsstring list \<Rightarrow> plugin_state \<Rightarrow> plugin_state" where
  "removeAll el names s = foldl (\<lambda>t name. removeAttribute el name t) s names"

definition removedBy :: "(jsstring list \<Rightarrow> jsstring list) \<Rightarrow> plugin_state \<Rightarrow> element \<Rightarrow> jsstring list" where
  "removedBy namesOf s el = (case appliedAttributes s el of None \<Rightarrow> [] | Some keys \<Rightarrow> namesOf keys)"

definition clearWith :: "(jsstring list \<Rightarrow> jsstring list) \<Rightarrow> element \<Rightarrow> plugin_state \<Rightarrow> plugin_state" where
  "clearWith namesOf el s =
     (removeAll el (removedBy namesOf s el) s)\<lparr>appliedAttributes := (appliedAttributes s)(el := None)\<rparr>"

definition syncWith :: "(jsstring list \<Rightarrow> jsstring list) \<Rightarrow> (jsstring \<times> jsstring) list \<Rightarrow> jsstring list
    \<Rightarrow> element \<Rightarrow> plugin_state \<Rightarrow> plugin_state" where
  "syncWith namesOf ws keys el s =
     (let t = setAll el ws (clearWith namesOf el s)
      in if keys = [] then t else t\<lparr>appliedAttributes := (appliedAttributes t)(el \<mapsto> keys)\<rparr>)"

text \<open>
  An element carries a list of writes: its record is the key list (none for the empty
  list) and every attribute the writes name has the value the last such write gave it.
\<close>

definition carries :: "(jsstring \<times> jsstring) list \<Rightarrow> jsstring list \<Rightarrow> plugin_state \<Rightarrow> element \<Rightarrow> bool" where
  "carries ws keys s e \<longleftrightarrow>
     appliedAttributes s e = (if keys = [] then None else Some keys)
     \<and> (\<forall>n\<in>fst ` set ws. attributes s e n = map_of (rev ws) n)"

definition removableNames :: "jsstring list \<Rightarrow> jsstring list" where
  "removableNames keys = filter (\<lambda>name. name \<notin> set prohibitedAttributeNames) (map dataName keys)"

definition keptEntries :: "frontmatter \<Rightarrow> frontmatter" where
  "keptEntries fm =
     filter (\<lambda>(key, v). dataName (sanitizeKey key) \<notin> set prohibitedAttributeNames) fm"

definition attributeWrites :: "frontmatter \<Rightarrow> (jsstring \<times> jsstring) list" where
  "attributeWrites fm = map (\<lambda>(key, v). (dataName (sanitizeKey key), processValue v)) (keptEntries fm)"

definition appliedKeys :: "frontmatter \<Rightarrow> jsstring list" where
  "appliedKeys fm = map (\<lambda>(key, v). sanitizeKey key) (keptEntries fm)"

definition attributeWrites_src :: "frontmatter \<Rightarrow> (jsstring \<times> jsstring) list" where
  "attributeWrites_src fm =
     map (\<lambda>(key, v). (dataName (sanitizeKey key), processValue_src v)) (restFrontmatter fm)"

definition appliedKeys_src :: "frontmatter \<Rightarrow> jsstring list" where
  "appliedKeys_src fm = map (\<lambda>(key, v). sanitizeKey key) (restFrontmatter fm)"

section \<open>Sample data\<close>

text \<open>
  The frontmatter of the README's example, a frontmatter of numbers (4.5, 27,
  \<open>10^21\<close>, \<open>NaN\<close> and a nested object), a file, two leaves that show it on two
  elements (the second through another file object of the same path), and the attributes
  the host puts on an element.
\<close>

definition sampleFrontmatter :: frontmatter where
  "sampleFrontmatter =
     [(str ''tags'', JArray [JString (str ''travel''), JString (str ''asia'')]),
      (str ''start'', JString (str ''2025-10-27'')),
      (str ''end'', JNull),
      (str ''insurance'', JBoolean True)]"

definition numericFrontmatter :: frontmatter where
  "numericFrontmatter =
     [(str ''rating'', JNumber (Finite False 45 1)),
      (str ''count'', JNumber (Finite False 27 2)),
      (str ''big'', JNumber (Finite False 1 22)),
      (str ''ratio'', JNumber NaN),
      (str ''nested'', JObject [(str ''a'', JArray [JNumber (Finite False 1 1), JNull])])]"

definition sampleFile :: tfile where
  "sampleFile = \<lparr>objectId = 1, path = str ''trip.md''\<rparr>"

definition sampleFileAgain :: tfile where
  "sampleFileAgain = \<lparr>objectId = 2, path = str ''trip.md''\<rparr>"

definition sampleLeaf :: leaf where
  "sampleLeaf =
     \<lparr>viewIsMarkdownView = True, viewFile = Some sampleFile,
      containerEl = Some 0, leafContentQuery = Some 0\<rparr>"

definition sampleLeafAgain :: leaf where
  "sampleLeafAgain =
     \<lparr>viewIsMarkdownView = True, viewFile = Some sampleFileAgain,
      containerEl = Some 1, leafContentQuery = Some 1\<rparr>"

definition sampleApp :: "frontmatter option \<Rightarrow> app" where
  "sampleApp fm =
     \<lparr>leavesOfTypeMarkdown = [sampleLeaf, sampleLeafAgain],
      frontmatterOf = (\<lambda>f. if path f = str ''trip.md'' then fm else None)\<rparr>"

definition hostAttributes :: "element \<Rightarrow> jsstring \<rightharpoonup> jsstring" where
  "hostAttributes el = [str ''data-type'' \<mapsto> str ''markdown'', str ''data-mode'' \<mapsto> str ''source'']"

section \<open>Key sanitization\<close>

lemma toLowerCase_unit_keyChar:
  "isKeyChar c \<Longrightarrow> toLowerCase_unit c = [if 0x41 \<le> c \<and> c \<le> 0x5A then c + 0x20 else c]"
  unfolding isKeyChar_def toLowerCase_unit_def by auto

lemma toLowerCase_unit_hyphen: "toLowerCase_unit 0x2D = [0x2D]"
  by (simp add: toLowerCase_unit_def)

lemma upper_isKeyChar: "0x41 \<le> c \<Longrightarrow> c \<le> 0x5A \<Longrightarrow> isKeyChar c"
  by (simp add: isKeyChar_def)

lemma sanitizeKey_map:
  "sanitizeKey key =
     map (\<lambda>c. if 0x41 \<le> c \<and> c \<le> 0x5A then c + 0x20 else if isKeyChar c then c else 0x2D) key"
  unfolding sanitizeKey_def toLowerCase_def replaceNonKeyChars_def
  by (induction key) (auto simp: toLowerCase_unit_keyChar toLowerCase_unit_hyphen upper_isKeyChar)

lemma lower_isKeyChar:
  assumes "0x41 \<le> c" "c \<le> 0x5A"
  shows "isKeyChar (c + 0x20)"
proof -
  from assms have lo: "65 \<le> unat c" and hi: "unat c \<le> 90"
    by (simp_all add: word_le_nat_alt)
  then have "unat (c + 0x20) = unat c + 32"
    by (simp add: unat_word_ariths)
  with lo hi have "0x61 \<le> c + 0x20 \<and> c + 0x20 \<le> 0x7A"
    by (simp add: word_le_nat_alt)
  then show ?thesis by (simp add: isKeyChar_def)
qed

lemma spec_unit_ascii:
  assumes "c < 0x80"
  shows "replaceNonKeyChars (toLowerCase_unit c) =
     [if 0x41 \<le> c \<and> c \<le> 0x5A then c + 0x20 else if isKeyChar c then c else 0x2D]"
proof (cases "0x41 \<le> c \<and> c \<le> 0x5A")
  case True
  then show ?thesis
    by (simp add: toLowerCase_unit_def replaceNonKeyChars_def lower_isKeyChar)
next
  case False
  from assms have "c \<noteq> 0x0130" "c \<noteq> 0x212A" by auto
  with False show ?thesis
    by (auto simp: toLowerCase_unit_def replaceNonKeyChars_def)
qed

lemma replaceNonKeyChars_append:
  "replaceNonKeyChars (xs @ ys) = replaceNonKeyChars xs @ replaceNonKeyChars ys"
  by (simp add: replaceNonKeyChars_def)

lemma spec_sanitizeKey_ascii:
  "\<forall>c\<in>set key. c < 0x80 \<Longrightarrow> spec_sanitizeKey key = sanitizeKey key"
  unfolding sanitizeKey_map spec_sanitizeKey_def toLowerCase_def
  by (induction key)
    (simp_all add: replaceNonKeyChars_append spec_unit_ascii, simp add: replaceNonKeyChars_def)

lemma lower_range:
  assumes "0x41 \<le> c" "c \<le> 0x5A"
  shows "0x61 \<le> c + 0x20 \<and> c + 0x20 \<le> (0x7A :: code_unit)"
proof -
  from assms have lo: "65 \<le> unat c" and hi: "unat c \<le> 90"
    by (simp_all add: word_le_nat_alt)
  then have "unat (c + 0x20) = unat c + 32"
    by (simp add: unat_word_ariths)
  with lo hi show ?thesis
    by (simp add: word_le_nat_alt)
qed

text \<open>
  A sanitized key holds lower-case ASCII letters, digits and hyphens only, so
  \<open>data-<key>\<close> is a valid attribute name in lower case: \<open>setAttribute\<close> takes it as
  it is and cannot raise on it.
\<close>

lemma sanitizeKey_chars:
  assumes "c \<in> set (sanitizeKey key)"
  shows "(0x61 \<le> c \<and> c \<le> 0x7A) \<or> (0x30 \<le> c \<and> c \<le> 0x39) \<or> c = 0x2D"
proof -
  from assms obtain d where d: "d \<in> set key"
    and c: "c = (if 0x41 \<le> d \<and> d \<le> 0x5A then d + 0x20 else if isKeyChar d then d else 0x2D)"
    unfolding sanitizeKey_map by auto
  show ?thesis
  proof (cases "0x41 \<le> d \<and> d \<le> 0x5A")
    case True
    with c lower_range [of d] show ?thesis by simp
  next
    case False
    with c show ?thesis by (auto simp: isKeyChar_def)
  qed
qed

text \<open>
  C5, as stated: the sanitized key is the key lower-cased and then stripped of every
  character that is not an ASCII letter, digit or hyphen. The source replaces first and
  lower-cases afterwards, and the two orders differ on a key holding the Kelvin sign
  U+212A: lower-cased first it becomes \<open>k\<close> and stays, replaced first it becomes a
  hyphen.
\<close>

theorem sanitizeKey_kelvin_counterexample:
  "sanitizeKey [0x212A] = str ''-'' \<and> spec_sanitizeKey [0x212A] = str ''k''"
  by (simp add: sanitizeKey_def spec_sanitizeKey_def toLowerCase_def toLowerCase_unit_def
      replaceNonKeyChars_def isKeyChar_def str_def)

text \<open>
  C5, amended: the sanitized key is the key with every code unit that is not an ASCII
  letter, digit or hyphen replaced by a hyphen, and then lower-cased: an upper-case
  ASCII letter becomes its lower-case letter, a lower-case letter, digit or hyphen stays,
  anything else is a hyphen. On a key of ASCII characters this is what lower-casing
  first and replacing afterwards gives. The key \<open>My Tag!\<close> yields the attribute name
  \<open>data-my-tag-\<close>.
\<close>

theorem sanitizeKey_replace_then_lower:
  "sanitizeKey key =
     map (\<lambda>c. if 0x41 \<le> c \<and> c \<le> 0x5A then c + 0x20 else if isKeyChar c then c else 0x2D) key
   \<and> ((\<forall>c\<in>set key. c < 0x80) \<longrightarrow> sanitizeKey key = spec_sanitizeKey key)
   \<and> dataName (sanitizeKey (str ''My Tag!'')) = str ''data-my-tag-''"
proof -
  have "dataName (sanitizeKey (str ''My Tag!'')) = str ''data-my-tag-''"
    by (simp add: sanitizeKey_map dataName_def str_def isKeyChar_def)
  then show ?thesis
    using sanitizeKey_map [of key] spec_sanitizeKey_ascii [of key] by simp
qed

theorem sanitizeKey_replace_then_lower_witness:
  "sanitizeKey (str ''My Tag!'') = str ''my-tag-''
   \<and> spec_sanitizeKey (str ''My Tag!'') = str ''my-tag-''"
proof -
  have ascii: "\<forall>c\<in>set (str ''My Tag!''). c < 0x80"
    by (simp add: str_def)
  from sanitizeKey_replace_then_lower [of "str ''My Tag!''"] ascii
  have same: "sanitizeKey (str ''My Tag!'') = spec_sanitizeKey (str ''My Tag!'')"
    by blast
  have "spec_sanitizeKey (str ''My Tag!'') = str ''my-tag-''"
    by (simp add: spec_sanitizeKey_def toLowerCase_def toLowerCase_unit_def
        replaceNonKeyChars_def isKeyChar_def str_def)
  with same show ?thesis by simp
qed

section \<open>Closed forms: lemmas\<close>

lemma setAll_Nil [simp]: "setAll el [] s = s"
  by (simp add: setAll_def)

lemma setAll_Cons [simp]: "setAll el ((n, v) # ws) s = setAll el ws (setAttribute el n v s)"
  by (simp add: setAll_def)

lemma removeAll_Nil [simp]: "removeAll el [] s = s"
  by (simp add: removeAll_def)

lemma removeAll_Cons [simp]: "removeAll el (n # ns) s = removeAll el ns (removeAttribute el n s)"
  by (simp add: removeAll_def)

lemma setAll_attributes_at:
  "attributes (setAll el ws s) e =
     (if e = el then attributes s el ++ map_of (rev ws) else attributes s e)"
proof (induction ws arbitrary: s)
  case Nil
  then show ?case by simp
next
  case (Cons w ws)
  obtain n v where w: "w = (n, v)" by (cases w)
  have "(attributes s el)(n \<mapsto> v) ++ map_of (rev ws) = attributes s el ++ (map_of (rev ws @ [(n, v)]))"
    by (auto simp: fun_eq_iff map_add_def split: option.splits)
  then show ?case
    by (auto simp: w Cons.IH setAttribute_def simp del: map_of_append)
qed

lemma setAll_attributes:
  "attributes (setAll el ws s) = (attributes s)(el := attributes s el ++ map_of (rev ws))"
  by (rule ext) (simp add: setAll_attributes_at)

lemma setAll_applied: "appliedAttributes (setAll el ws s) = appliedAttributes s"
  by (induction ws arbitrary: s) (auto simp: setAttribute_def)

lemma setAll_calls:
  "domCalls (setAll el ws s) = domCalls s @ map (\<lambda>(n, v). SetAttribute el n v) ws"
  by (induction ws arbitrary: s) (auto simp: setAttribute_def)

lemma removeAll_attributes_at:
  "attributes (removeAll el ns s) e =
     (if e = el then attributes s el |` (- set ns) else attributes s e)"
proof (induction ns arbitrary: s)
  case Nil
  then show ?case by simp
next
  case (Cons n ns)
  have "(attributes s el)(n := None) |` (- set ns) = attributes s el |` (- insert n (set ns))"
    by (auto simp: fun_eq_iff restrict_map_def)
  then show ?case
    by (auto simp: Cons.IH removeAttribute_def simp del: restrict_fun_upd)
qed

lemma removeAll_attributes:
  "attributes (removeAll el ns s) = (attributes s)(el := attributes s el |` (- set ns))"
  by (rule ext) (simp add: removeAll_attributes_at)

lemma removeAll_applied: "appliedAttributes (removeAll el ns s) = appliedAttributes s"
  by (induction ns arbitrary: s) (auto simp: removeAttribute_def)

lemma removeAll_calls:
  "domCalls (removeAll el ns s) = domCalls s @ map (RemoveAttribute el) ns"
  by (induction ns arbitrary: s) (auto simp: removeAttribute_def)

lemma clearWith_attributes:
  "attributes (clearWith nm el s) =
     (attributes s)(el := attributes s el |` (- set (removedBy nm s el)))"
  by (simp add: clearWith_def removeAll_attributes)

lemma clearWith_applied:
  "appliedAttributes (clearWith nm el s) = (appliedAttributes s)(el := None)"
  by (simp add: clearWith_def)

lemma clearWith_calls:
  "domCalls (clearWith nm el s) = domCalls s @ map (RemoveAttribute el) (removedBy nm s el)"
  by (simp add: clearWith_def removeAll_calls)

lemma clearWith_untracked: "appliedAttributes s el = None \<Longrightarrow> clearWith nm el s = s"
  by (simp add: clearWith_def removedBy_def fun_upd_idem)

lemma syncWith_attributes:
  "attributes (syncWith nm ws ks el s) =
     (attributes s)(el := (attributes s el |` (- set (removedBy nm s el))) ++ map_of (rev ws))"
  by (simp add: syncWith_def Let_def setAll_attributes clearWith_attributes)

lemma syncWith_applied:
  "appliedAttributes (syncWith nm ws ks el s) =
     (appliedAttributes s)(el := if ks = [] then None else Some ks)"
  by (simp add: syncWith_def Let_def setAll_applied clearWith_applied)

lemma syncWith_calls:
  "domCalls (syncWith nm ws ks el s) =
     domCalls s @ map (RemoveAttribute el) (removedBy nm s el)
       @ map (\<lambda>(n, v). SetAttribute el n v) ws"
  by (simp add: syncWith_def Let_def setAll_calls clearWith_calls)

lemma foldl_skip_filter:
  "foldl (\<lambda>t x. if P x then t else g x t) s xs = foldl (\<lambda>t x. g x t) s (filter (\<lambda>x. \<not> P x) xs)"
  by (induction xs arbitrary: s) auto

lemma clearAttributes_closed: "clearAttributes el s = clearWith removableNames el s"
proof (cases "appliedAttributes s el")
  case None
  then show ?thesis
    by (simp add: clearAttributes_def clearWith_untracked)
next
  case (Some ks)
  have "foldl (\<lambda>t key. if dataName key \<in> set prohibitedAttributeNames then t
            else removeAttribute el (dataName key) t) s ks
        = removeAll el (removableNames ks) s"
    unfolding removableNames_def removeAll_def
    by (induction ks arbitrary: s) auto
  then show ?thesis
    by (simp add: clearAttributes_def clearWith_def removedBy_def Some Let_def removeAll_applied)
qed

lemma clearAttributes_src_closed: "clearAttributes_src el s = clearWith (map dataName) el s"
proof (cases "appliedAttributes s el")
  case None
  then show ?thesis
    by (simp add: clearAttributes_src_def clearWith_untracked)
next
  case (Some ks)
  have "foldl (\<lambda>t key. removeAttribute el (dataName key) t) s ks = removeAll el (map dataName ks) s"
    unfolding removeAll_def
    by (induction ks arbitrary: s) auto
  then show ?thesis
    by (simp add: clearAttributes_src_def clearWith_def removedBy_def Some Let_def removeAll_applied)
qed

lemma applyLoop_closed:
  "applyLoop el fm (s, ks) = (setAll el (attributeWrites fm) s, ks @ appliedKeys fm)"
  by (induction fm arbitrary: s ks)
    (auto simp: attributeWrites_def appliedKeys_def keptEntries_def Let_def)

lemma applyLoop_src_closed:
  "applyLoop_src el fm (s, ks) =
     (setAll el (map (\<lambda>(key, v). (dataName (sanitizeKey key), processValue_src v)) fm) s,
      ks @ map (\<lambda>(key, v). sanitizeKey key) fm)"
  by (induction fm arbitrary: s ks) (auto simp: Let_def)

lemma applyAttributes_closed:
  "applyAttributes ap file lf s =
     (case (file, lf) of
        (Some f, Some l) \<Rightarrow>
          (case containerEl l of
             None \<Rightarrow> s
           | Some el \<Rightarrow>
               (case frontmatterOf ap f of
                  None \<Rightarrow> clearWith removableNames el s
                | Some fm \<Rightarrow> syncWith removableNames (attributeWrites fm) (appliedKeys fm) el s))
      | _ \<Rightarrow> s)"
  by (simp add: applyAttributes_def clearAttributes_closed applyLoop_closed syncWith_def Let_def
      split: option.splits)

lemma applyAttributes_src_closed:
  "applyAttributes_src ap file lf s =
     (case (file, lf) of
        (Some f, Some l) \<Rightarrow>
          (case leafContentQuery l of
             None \<Rightarrow> s
           | Some el \<Rightarrow>
               (case frontmatterOf ap f of
                  None \<Rightarrow> clearWith (map dataName) el s
                | Some fm \<Rightarrow>
                    syncWith (map dataName) (attributeWrites_src fm) (appliedKeys_src fm) el s))
      | _ \<Rightarrow> s)"
  by (simp add: applyAttributes_src_def clearAttributes_src_closed applyLoop_src_closed
      syncWith_def Let_def attributeWrites_src_def appliedKeys_src_def
      split: option.splits)

section \<open>The applied-attribute record and the attributes written\<close>

lemma foldl_writtenStep_removes:
  "foldl (writtenStep e) W (map (RemoveAttribute el) ns) = (if e = el then W - set ns else W)"
  by (induction ns arbitrary: W) auto

lemma foldl_writtenStep_sets:
  "foldl (writtenStep e) W (map (\<lambda>(n, v). SetAttribute el n v) ws) =
     (if e = el then W \<union> fst ` set ws else W)"
  by (induction ws arbitrary: W) auto

lemma written_clearWith:
  "written (domCalls (clearWith nm el s)) e =
     (if e = el then written (domCalls s) e - set (removedBy nm s el) else written (domCalls s) e)"
  by (simp add: written_def clearWith_calls foldl_writtenStep_removes)

lemma written_syncWith:
  "written (domCalls (syncWith nm ws ks el s)) e =
     (if e = el then written (domCalls s) e - set (removedBy nm s el) \<union> fst ` set ws
      else written (domCalls s) e)"
  by (simp add: written_def syncWith_calls foldl_writtenStep_removes foldl_writtenStep_sets)

lemma recordedNames_clearWith:
  "recordedNames (clearWith nm el s) e = (if e = el then {} else recordedNames s e)"
  by (simp add: recordedNames_def clearWith_applied)

lemma recordedNames_syncWith:
  "recordedNames (syncWith nm ws ks el s) e = (if e = el then dataName ` set ks else recordedNames s e)"
  by (simp add: recordedNames_def syncWith_applied)

text \<open>The invariant of a run, for a removal policy \<open>nm\<close>.\<close>

lemma clearWith_keeps:
  assumes "\<forall>e. written (domCalls s) e = recordedNames s e"
    and "\<forall>e ks. appliedAttributes s e = Some ks \<longrightarrow> set (nm ks) = dataName ` set ks"
  shows "(\<forall>e. written (domCalls (clearWith nm el s)) e = recordedNames (clearWith nm el s) e)
    \<and> (\<forall>e ks. appliedAttributes (clearWith nm el s) e = Some ks \<longrightarrow> set (nm ks) = dataName ` set ks)"
proof -
  have "written (domCalls s) el - set (removedBy nm s el) = {}"
    using assms by (auto simp: removedBy_def recordedNames_def split: option.splits)
  then show ?thesis
    using assms by (simp add: written_clearWith recordedNames_clearWith clearWith_applied)
qed

lemma syncWith_keeps:
  assumes "\<forall>e. written (domCalls s) e = recordedNames s e"
    and "\<forall>e ks. appliedAttributes s e = Some ks \<longrightarrow> set (nm ks) = dataName ` set ks"
    and "fst ` set ws = dataName ` set keys"
    and "set (nm keys) = dataName ` set keys"
  shows "(\<forall>e. written (domCalls (syncWith nm ws keys el s)) e = recordedNames (syncWith nm ws keys el s) e)
    \<and> (\<forall>e ks. appliedAttributes (syncWith nm ws keys el s) e = Some ks \<longrightarrow> set (nm ks) = dataName ` set ks)"
proof -
  have "written (domCalls s) el - set (removedBy nm s el) = {}"
    using assms(1,2) by (auto simp: removedBy_def recordedNames_def split: option.splits)
  moreover have "keys = [] \<Longrightarrow> fst ` set ws = {}"
    using assms(3) by simp
  ultimately show ?thesis
    using assms by (auto simp: written_syncWith recordedNames_syncWith syncWith_applied)
qed

lemma map_fst_attributeWrites: "map fst (attributeWrites fm) = map dataName (appliedKeys fm)"
  by (simp add: attributeWrites_def appliedKeys_def case_prod_unfold)

lemma map_fst_attributeWrites_src:
  "map fst (attributeWrites_src fm) = map dataName (appliedKeys_src fm)"
  by (simp add: attributeWrites_src_def appliedKeys_src_def case_prod_unfold)

lemma attributeWrites_names: "fst ` set (attributeWrites fm) = dataName ` set (appliedKeys fm)"
  using arg_cong [OF map_fst_attributeWrites, of set] by simp

lemma attributeWrites_src_names:
  "fst ` set (attributeWrites_src fm) = dataName ` set (appliedKeys_src fm)"
  using arg_cong [OF map_fst_attributeWrites_src, of set] by simp

lemma removableNames_appliedKeys_eq:
  "removableNames (appliedKeys fm) = map dataName (appliedKeys fm)"
  unfolding removableNames_def appliedKeys_def keptEntries_def
  by (induction fm) auto

lemma removableNames_appliedKeys:
  "set (removableNames (appliedKeys fm)) = dataName ` set (appliedKeys fm)"
  by (simp add: removableNames_appliedKeys_eq)

lemma exec_keeps:
  assumes "\<forall>e. written (domCalls s) e = recordedNames s e"
    and "\<forall>e ks. appliedAttributes s e = Some ks \<longrightarrow> set (removableNames ks) = dataName ` set ks"
  shows "(\<forall>e. written (domCalls (exec c s)) e = recordedNames (exec c s) e)
    \<and> (\<forall>e ks. appliedAttributes (exec c s) e = Some ks \<longrightarrow> set (removableNames ks) = dataName ` set ks)"
proof (cases c)
  case (ApplyAttributes ap fl lf)
  show ?thesis
    unfolding ApplyAttributes exec.simps applyAttributes_closed
    using assms clearWith_keeps [OF assms]
      syncWith_keeps [OF assms attributeWrites_names removableNames_appliedKeys]
    by (simp split: option.splits)
next
  case (ClearAttributes el)
  show ?thesis
    unfolding ClearAttributes exec.simps clearAttributes_closed
    by (rule clearWith_keeps [OF assms])
qed

lemma exec_src_keeps:
  assumes "\<forall>e. written (domCalls s) e = recordedNames s e"
  shows "\<forall>e. written (domCalls (exec_src c s)) e = recordedNames (exec_src c s) e"
proof -
  have nm: "\<forall>e ks. appliedAttributes s e = Some ks \<longrightarrow> set (map dataName ks) = dataName ` set ks"
    by simp
  show ?thesis
  proof (cases c)
    case (ApplyAttributes ap fl lf)
    show ?thesis
      unfolding ApplyAttributes exec_src.simps applyAttributes_src_closed
      using assms clearWith_keeps [OF assms nm]
        syncWith_keeps [OF assms nm attributeWrites_src_names]
      by (simp split: option.splits)
  next
    case (ClearAttributes el)
    show ?thesis
      unfolding ClearAttributes exec_src.simps clearAttributes_src_closed
      using clearWith_keeps [OF assms nm] by simp
  qed
qed

lemma run_keeps:
  assumes "\<forall>e. written (domCalls s) e = recordedNames s e"
    and "\<forall>e ks. appliedAttributes s e = Some ks \<longrightarrow> set (removableNames ks) = dataName ` set ks"
  shows "(\<forall>e. written (domCalls (run cs s)) e = recordedNames (run cs s) e)
    \<and> (\<forall>e ks. appliedAttributes (run cs s) e = Some ks \<longrightarrow> set (removableNames ks) = dataName ` set ks)"
  using assms
proof (induction cs arbitrary: s)
  case Nil
  then show ?case by (simp add: run_def)
next
  case (Cons c cs)
  from exec_keeps [OF Cons.prems] Cons.IH [of "exec c s"]
  show ?case by (simp add: run_def)
qed

lemma run_src_keeps:
  assumes "\<forall>e. written (domCalls s) e = recordedNames s e"
  shows "\<forall>e. written (domCalls (run_src cs s)) e = recordedNames (run_src cs s) e"
  using assms
proof (induction cs arbitrary: s)
  case Nil
  then show ?case by (simp add: run_src_def)
next
  case (Cons c cs)
  from exec_src_keeps [OF Cons.prems] Cons.IH [of "exec_src c s"]
  show ?case by (simp add: run_src_def)
qed

lemma initial_consistent:
  "written (domCalls (initial A)) e = recordedNames (initial A) e"
  "appliedAttributes (initial A) e = None"
  by (simp_all add: initial_def written_def recordedNames_def)

lemma run_initial_consistent:
  "written (domCalls (run cs (initial A))) e = recordedNames (run cs (initial A)) e"
  "appliedAttributes (run cs (initial A)) e = Some ks \<Longrightarrow> set (removableNames ks) = dataName ` set ks"
  using run_keeps [of "initial A" cs] by (simp_all add: initial_consistent)

lemma run_src_initial_consistent:
  "written (domCalls (run_src cs (initial A))) e = recordedNames (run_src cs (initial A)) e"
  using run_src_keeps [of "initial A" cs] by (simp add: initial_consistent)

text \<open>
  C1: after any sequence of \<open>applyAttributes\<close> and \<open>clearAttributes\<close> calls from
  start-up, the attribute names the plugin has written onto an element and not removed
  are exactly the names \<open>data-<key>\<close> of the element's applied-attribute record (none
  when it has no record), in both source files. An apply that reaches the loop replaces
  the record by the keys it applied, whatever the record was, and keeps no record when
  it applied none.
\<close>

theorem applied_record_invariant:
  "written (domCalls (run cs (initial A))) el = recordedNames (run cs (initial A)) el
   \<and> written (domCalls (run_src cs (initial A))) el = recordedNames (run_src cs (initial A)) el
   \<and> (containerEl l = Some el \<and> frontmatterOf ap f = Some fm \<longrightarrow>
        appliedAttributes (applyAttributes ap (Some f) (Some l) s) el =
          (if appliedKeys fm = [] then None else Some (appliedKeys fm)))
   \<and> (leafContentQuery l = Some el \<and> frontmatterOf ap f = Some fm \<longrightarrow>
        appliedAttributes (applyAttributes_src ap (Some f) (Some l) s) el =
          (if appliedKeys_src fm = [] then None else Some (appliedKeys_src fm)))"
  by (simp add: run_initial_consistent run_src_initial_consistent applyAttributes_closed
      applyAttributes_src_closed syncWith_applied)


lemma sample_resolves:
  "containerEl sampleLeaf = Some 0" "leafContentQuery sampleLeaf = Some 0"
  "containerEl sampleLeafAgain = Some 1" "leafContentQuery sampleLeafAgain = Some 1"
  "frontmatterOf (sampleApp fm) sampleFile = fm"
  "frontmatterOf (sampleApp fm) sampleFileAgain = fm"
  by (simp_all add: sampleLeaf_def sampleLeafAgain_def sampleApp_def sampleFile_def
      sampleFileAgain_def)

lemma sample_appliedKeys:
  "appliedKeys sampleFrontmatter = [str ''tags'', str ''start'', str ''end'', str ''insurance'']"
  "appliedKeys_src sampleFrontmatter = [str ''tags'', str ''start'', str ''end'', str ''insurance'']"
  by (simp_all add: appliedKeys_def appliedKeys_src_def keptEntries_def restFrontmatter_def
      sampleFrontmatter_def prohibitedAttributeNames_def dataName_def sanitizeKey_map
      isKeyChar_def str_def)

theorem applied_record_invariant_witness:
  "written (domCalls (run
       [ApplyAttributes (sampleApp (Some sampleFrontmatter)) (Some sampleFile) (Some sampleLeaf),
        ApplyAttributes (sampleApp (Some [(str ''Status'', JString (str ''done''))]))
          (Some sampleFile) (Some sampleLeaf)]
       (initial hostAttributes))) 0 = {str ''data-status''}
   \<and> appliedAttributes (applyAttributes (sampleApp (Some sampleFrontmatter)) (Some sampleFile)
         (Some sampleLeaf) (initial hostAttributes)) 0
       = Some [str ''tags'', str ''start'', str ''end'', str ''insurance'']
   \<and> appliedAttributes (applyAttributes_src (sampleApp (Some sampleFrontmatter)) (Some sampleFile)
         (Some sampleLeaf) (initial hostAttributes)) 0
       = Some [str ''tags'', str ''start'', str ''end'', str ''insurance'']"
proof -
  note inv = applied_record_invariant
    [where cs = "[ApplyAttributes (sampleApp (Some sampleFrontmatter)) (Some sampleFile) (Some sampleLeaf),
        ApplyAttributes (sampleApp (Some [(str ''Status'', JString (str ''done''))]))
          (Some sampleFile) (Some sampleLeaf)]"
      and A = hostAttributes and el = 0 and l = sampleLeaf
      and ap = "sampleApp (Some sampleFrontmatter)" and f = sampleFile
      and fm = sampleFrontmatter and s = "initial hostAttributes"]
  have keys: "appliedKeys [(str ''Status'', JString (str ''done''))] = [str ''status'']"
    by (simp add: appliedKeys_def keptEntries_def prohibitedAttributeNames_def dataName_def
        sanitizeKey_map isKeyChar_def str_def)
  have recorded: "recordedNames (run
       [ApplyAttributes (sampleApp (Some sampleFrontmatter)) (Some sampleFile) (Some sampleLeaf),
        ApplyAttributes (sampleApp (Some [(str ''Status'', JString (str ''done''))]))
          (Some sampleFile) (Some sampleLeaf)]
       (initial hostAttributes)) 0 = {dataName (str ''status'')}"
    by (simp add: run_def applyAttributes_closed sample_resolves syncWith_applied
        recordedNames_def keys)
  have name: "dataName (str ''status'') = str ''data-status''"
    by (simp add: dataName_def str_def)
  from inv recorded name show ?thesis
    by (simp add: sample_resolves sample_appliedKeys)
qed

section \<open>Idempotence\<close>

lemma removedBy_clearWith: "removedBy nm (clearWith nm' el s) el = []"
  by (simp add: removedBy_def clearWith_applied)

lemma removedBy_syncWith:
  "removedBy nm (syncWith nm' ws ks el s) el = (if ks = [] then [] else nm ks)"
  by (simp add: removedBy_def syncWith_applied)

lemma restrict_then_add:
  assumes "R \<subseteq> fst ` set ws"
  shows "((M ++ map_of (rev ws)) |` (- R)) ++ map_of (rev ws) = M ++ map_of (rev ws)"
proof (rule ext)
  fix n
  show "(((M ++ map_of (rev ws)) |` (- R)) ++ map_of (rev ws)) n = (M ++ map_of (rev ws)) n"
  proof (cases "n \<in> R")
    case True
    with assms have "n \<in> dom (map_of (rev ws))"
      by (auto simp: dom_map_of_conv_image_fst)
    then show ?thesis
      by (auto simp: map_add_def split: option.splits)
  next
    case False
    then show ?thesis
      by (simp add: map_add_def restrict_map_def split: option.splits)
  qed
qed

lemma clearWith_twice: "clearWith nm el (clearWith nm el s) = clearWith nm el s"
  by (simp add: clearWith_untracked clearWith_applied)

lemma syncWith_twice:
  assumes "set (nm ks) \<subseteq> fst ` set ws"
  shows "attributes (syncWith nm ws ks el (syncWith nm ws ks el s)) = attributes (syncWith nm ws ks el s)"
    and "appliedAttributes (syncWith nm ws ks el (syncWith nm ws ks el s)) =
         appliedAttributes (syncWith nm ws ks el s)"
proof -
  have "set (removedBy nm (syncWith nm ws ks el s) el) \<subseteq> fst ` set ws"
    using assms by (simp add: removedBy_syncWith)
  from restrict_then_add [OF this]
  show "attributes (syncWith nm ws ks el (syncWith nm ws ks el s)) = attributes (syncWith nm ws ks el s)"
    by (simp add: syncWith_attributes)
  show "appliedAttributes (syncWith nm ws ks el (syncWith nm ws ks el s)) =
         appliedAttributes (syncWith nm ws ks el s)"
    by (simp add: syncWith_applied)
qed

lemma syncWith_twice_removable:
  "attributes (syncWith removableNames (attributeWrites fm) (appliedKeys fm) el
      (syncWith removableNames (attributeWrites fm) (appliedKeys fm) el s)) =
   attributes (syncWith removableNames (attributeWrites fm) (appliedKeys fm) el s)"
  "appliedAttributes (syncWith removableNames (attributeWrites fm) (appliedKeys fm) el
      (syncWith removableNames (attributeWrites fm) (appliedKeys fm) el s)) =
   appliedAttributes (syncWith removableNames (attributeWrites fm) (appliedKeys fm) el s)"
  by (rule syncWith_twice, simp add: removableNames_appliedKeys attributeWrites_names)+

lemma syncWith_twice_src:
  "attributes (syncWith (map dataName) (attributeWrites_src fm) (appliedKeys_src fm) el
      (syncWith (map dataName) (attributeWrites_src fm) (appliedKeys_src fm) el s)) =
   attributes (syncWith (map dataName) (attributeWrites_src fm) (appliedKeys_src fm) el s)"
  "appliedAttributes (syncWith (map dataName) (attributeWrites_src fm) (appliedKeys_src fm) el
      (syncWith (map dataName) (attributeWrites_src fm) (appliedKeys_src fm) el s)) =
   appliedAttributes (syncWith (map dataName) (attributeWrites_src fm) (appliedKeys_src fm) el s)"
  by (rule syncWith_twice, simp add: attributeWrites_src_names)+

text \<open>
  C2: \<open>applyAttributes\<close> is idempotent. Called twice in succession with the same
  application (hence the same metadata), file and leaf, it leaves every element with the
  attributes, and the WeakMap with the records, that the first call left; in both source
  files, from any state.
\<close>

theorem applyAttributes_idempotent:
  "attributes (applyAttributes ap fl lf (applyAttributes ap fl lf s)) =
     attributes (applyAttributes ap fl lf s)
   \<and> appliedAttributes (applyAttributes ap fl lf (applyAttributes ap fl lf s)) =
     appliedAttributes (applyAttributes ap fl lf s)
   \<and> attributes (applyAttributes_src ap fl lf (applyAttributes_src ap fl lf s)) =
     attributes (applyAttributes_src ap fl lf s)
   \<and> appliedAttributes (applyAttributes_src ap fl lf (applyAttributes_src ap fl lf s)) =
     appliedAttributes (applyAttributes_src ap fl lf s)"
  by (simp add: applyAttributes_closed applyAttributes_src_closed clearWith_twice
      syncWith_twice_removable syncWith_twice_src
      split: option.splits)

theorem applyAttributes_idempotent_witness:
  "attributes (applyAttributes (sampleApp (Some sampleFrontmatter)) (Some sampleFile) (Some sampleLeaf)
      (applyAttributes (sampleApp (Some sampleFrontmatter)) (Some sampleFile) (Some sampleLeaf)
         (initial hostAttributes))) 0 (str ''data-insurance'') = Some (str ''true'')"
proof -
  have once: "attributes (applyAttributes (sampleApp (Some sampleFrontmatter)) (Some sampleFile)
      (Some sampleLeaf) (initial hostAttributes)) 0 (str ''data-insurance'') = Some (str ''true'')"
    by (simp add: applyAttributes_closed sample_resolves syncWith_attributes attributeWrites_def
        keptEntries_def sampleFrontmatter_def prohibitedAttributeNames_def dataName_def
        sanitizeKey_map isKeyChar_def str_def processValue_def)
  from applyAttributes_idempotent [of "sampleApp (Some sampleFrontmatter)" "Some sampleFile"
      "Some sampleLeaf" "initial hostAttributes"] once
  show ?thesis by simp
qed

section \<open>Cleanup before apply\<close>

lemma clearWith_clears:
  assumes "n \<in> set (removedBy nm s el)"
  shows "attributes (clearWith nm el s) el n = None"
  using assms by (simp add: clearWith_attributes)

lemma syncWith_clears:
  assumes "n \<in> set (removedBy nm s el)" and "n \<notin> fst ` set ws"
  shows "attributes (syncWith nm ws ks el s) el n = None"
proof -
  from assms(2) have "map_of (rev ws) n = None"
    by (simp add: map_of_eq_None_iff)
  with assms(1) show ?thesis
    by (simp add: syncWith_attributes map_add_def)
qed

lemma dataName_inject [simp]: "dataName a = dataName b \<longleftrightarrow> a = b"
  by (simp add: dataName_def)

lemma appliedKeys_subset: "set (appliedKeys fm) \<subseteq> sanitizeKey ` fst ` set fm"
  by (force simp: appliedKeys_def keptEntries_def)

lemma appliedKeys_src_subset: "set (appliedKeys_src fm) \<subseteq> sanitizeKey ` fst ` set fm"
  by (force simp: appliedKeys_src_def restFrontmatter_def)

lemma not_written:
  assumes "K \<notin> sanitizeKey ` fst ` set fm"
  shows "dataName K \<notin> fst ` set (attributeWrites fm)"
    and "dataName K \<notin> fst ` set (attributeWrites_src fm)"
  using assms appliedKeys_subset [of fm] appliedKeys_src_subset [of fm]
  by (auto simp: attributeWrites_names attributeWrites_src_names)

lemma status_keys:
  "appliedKeys [(str ''Status'', JString (str ''done''))] = [str ''status'']"
  "appliedKeys_src [(str ''Status'', JString (str ''done''))] = [str ''status'']"
  "attributeWrites [(str ''STATUS'', JString (str ''open''))] = [(dataName (str ''status''), str ''open'')]"
  "appliedKeys [(str ''STATUS'', JString (str ''open''))] = [str ''status'']"
  by (simp_all add: appliedKeys_def appliedKeys_src_def attributeWrites_def keptEntries_def
      restFrontmatter_def prohibitedAttributeNames_def dataName_def sanitizeKey_map isKeyChar_def
      str_def processValue_def)

text \<open>
  C3, as stated: if the record of an element holds the sanitized key \<open>K\<close> and the new
  metadata has no key named \<open>K\<close>, then \<open>data-K\<close> is absent after \<open>applyAttributes\<close>.
  A key of another name can sanitize to \<open>K\<close>: with the record \<open>status\<close> (written for
  the key \<open>Status\<close>) and new metadata whose only key is \<open>STATUS\<close>, no key is named
  \<open>status\<close>, and \<open>data-status\<close> is present afterwards.
\<close>

theorem renamed_key_counterexample:
  "appliedAttributes
      (run [ApplyAttributes (sampleApp (Some [(str ''Status'', JString (str ''done''))]))
               (Some sampleFile) (Some sampleLeaf)] (initial hostAttributes)) 0 = Some [str ''status'']
   \<and> str ''status'' \<notin> fst ` set [(str ''STATUS'', JString (str ''open''))]
   \<and> attributes (applyAttributes (sampleApp (Some [(str ''STATUS'', JString (str ''open''))]))
        (Some sampleFile) (Some sampleLeaf)
        (run [ApplyAttributes (sampleApp (Some [(str ''Status'', JString (str ''done''))]))
               (Some sampleFile) (Some sampleLeaf)] (initial hostAttributes)))
       0 (dataName (str ''status'')) = Some (str ''open'')"
  by (simp add: run_def applyAttributes_closed sample_resolves syncWith_applied
      syncWith_attributes status_keys, simp add: str_def)

text \<open>
  C3, amended: if, after a run from start-up, the record of an element holds the
  sanitized key \<open>K\<close>, then \<open>applyAttributes\<close> on that element with metadata none of
  whose keys sanitizes to \<open>K\<close> (or with no metadata at all) leaves the attribute
  \<open>data-K\<close> absent from the element; in both source files.
\<close>

theorem stale_attribute_absent_after_apply:
  "(appliedAttributes (run cs (initial A)) el = Some ks \<and> K \<in> set ks
      \<and> containerEl l = Some el
      \<and> (\<forall>fm. frontmatterOf ap f = Some fm \<longrightarrow> K \<notin> sanitizeKey ` fst ` set fm)
    \<longrightarrow> attributes (applyAttributes ap (Some f) (Some l) (run cs (initial A))) el (dataName K) = None)
   \<and> (appliedAttributes (run_src cs (initial A)) el = Some ks \<and> K \<in> set ks
      \<and> leafContentQuery l = Some el
      \<and> (\<forall>fm. frontmatterOf ap f = Some fm \<longrightarrow> K \<notin> sanitizeKey ` fst ` set fm)
    \<longrightarrow> attributes (applyAttributes_src ap (Some f) (Some l) (run_src cs (initial A))) el (dataName K) = None)"
proof (intro conjI impI; elim conjE)
  assume rec: "appliedAttributes (run cs (initial A)) el = Some ks" and K: "K \<in> set ks"
    and el: "containerEl l = Some el"
    and fm: "\<forall>fm. frontmatterOf ap f = Some fm \<longrightarrow> K \<notin> sanitizeKey ` fst ` set fm"
  from run_initial_consistent(2) [OF rec] K
  have "dataName K \<in> set (removedBy removableNames (run cs (initial A)) el)"
    by (simp add: removedBy_def rec)
  then show "attributes (applyAttributes ap (Some f) (Some l) (run cs (initial A))) el (dataName K) = None"
    using fm el
    by (simp add: applyAttributes_closed clearWith_clears syncWith_clears not_written
        split: option.splits)
next
  assume rec: "appliedAttributes (run_src cs (initial A)) el = Some ks" and K: "K \<in> set ks"
    and el: "leafContentQuery l = Some el"
    and fm: "\<forall>fm. frontmatterOf ap f = Some fm \<longrightarrow> K \<notin> sanitizeKey ` fst ` set fm"
  from K have "dataName K \<in> set (removedBy (map dataName) (run_src cs (initial A)) el)"
    by (simp add: removedBy_def rec)
  then show "attributes (applyAttributes_src ap (Some f) (Some l) (run_src cs (initial A))) el (dataName K) = None"
    using fm el
    by (simp add: applyAttributes_src_closed clearWith_clears syncWith_clears not_written
        split: option.splits)
qed

theorem stale_attribute_absent_after_apply_witness:
  "attributes (applyAttributes (sampleApp (Some [(str ''priority'', JNumber (Finite False 2 1))])) (Some sampleFile)
       (Some sampleLeaf)
       (run [ApplyAttributes (sampleApp (Some [(str ''Status'', JString (str ''done''))]))
               (Some sampleFile) (Some sampleLeaf)] (initial hostAttributes)))
     0 (dataName (str ''status'')) = None
   \<and> attributes (applyAttributes_src (sampleApp (Some [(str ''priority'', JNumber (Finite False 2 1))])) (Some sampleFile)
       (Some sampleLeaf)
       (run_src [ApplyAttributes (sampleApp (Some [(str ''Status'', JString (str ''done''))]))
               (Some sampleFile) (Some sampleLeaf)] (initial hostAttributes)))
     0 (dataName (str ''status'')) = None"
proof -
  have rec: "appliedAttributes
      (run [ApplyAttributes (sampleApp (Some [(str ''Status'', JString (str ''done''))]))
               (Some sampleFile) (Some sampleLeaf)] (initial hostAttributes)) 0 = Some [str ''status'']"
    "appliedAttributes
      (run_src [ApplyAttributes (sampleApp (Some [(str ''Status'', JString (str ''done''))]))
               (Some sampleFile) (Some sampleLeaf)] (initial hostAttributes)) 0 = Some [str ''status'']"
    by (simp_all add: run_def run_src_def applyAttributes_closed applyAttributes_src_closed
        sample_resolves syncWith_applied status_keys)
  have lacking: "\<forall>fm. frontmatterOf (sampleApp (Some [(str ''priority'', JNumber (Finite False 2 1))])) sampleFile = Some fm
      \<longrightarrow> str ''status'' \<notin> sanitizeKey ` fst ` set fm"
    by (simp add: sample_resolves sanitizeKey_map isKeyChar_def str_def)
  from stale_attribute_absent_after_apply
    [where cs = "[ApplyAttributes (sampleApp (Some [(str ''Status'', JString (str ''done''))]))
               (Some sampleFile) (Some sampleLeaf)]"
      and A = hostAttributes and el = 0 and ks = "[str ''status'']" and K = "str ''status''"
      and l = sampleLeaf and ap = "sampleApp (Some [(str ''priority'', JNumber (Finite False 2 1))])"
      and f = sampleFile]
    rec lacking sample_resolves(1,2)
  show ?thesis by simp
qed

section \<open>Reserved attribute names\<close>

lemma removableNames_allowed: "name \<in> set (removableNames ks) \<Longrightarrow> name \<notin> set prohibitedAttributeNames"
  by (simp add: removableNames_def)

lemma removedBy_removable_allowed:
  "name \<in> set (removedBy removableNames s el) \<Longrightarrow> name \<notin> set prohibitedAttributeNames"
  by (auto simp: removedBy_def removableNames_allowed split: option.splits)

lemma attributeWrites_allowed:
  "(name, v) \<in> set (attributeWrites fm) \<Longrightarrow> name \<notin> set prohibitedAttributeNames"
  by (auto simp: attributeWrites_def keptEntries_def)

text \<open>
  In the source file that declares \<open>prohibitedAttributeNames\<close>, neither operation
  makes a call about \<open>data-type\<close> or \<open>data-mode\<close>, and both leave these two
  attributes of every element as they were, from any state and for any metadata.
\<close>

lemma clearAttributes_spares_prohibited:
  "\<exists>new. domCalls (clearAttributes el s) = domCalls s @ new
      \<and> (\<forall>c\<in>set new. callName c \<notin> set prohibitedAttributeNames)"
  "name \<in> set prohibitedAttributeNames \<Longrightarrow>
     attributes (clearAttributes el s) e name = attributes s e name"
proof -
  show "\<exists>new. domCalls (clearAttributes el s) = domCalls s @ new
      \<and> (\<forall>c\<in>set new. callName c \<notin> set prohibitedAttributeNames)"
    by (auto simp: clearAttributes_closed clearWith_calls removedBy_removable_allowed)
  assume "name \<in> set prohibitedAttributeNames"
  then have "name \<notin> set (removedBy removableNames s el)"
    using removedBy_removable_allowed by blast
  then show "attributes (clearAttributes el s) e name = attributes s e name"
    by (simp add: clearAttributes_closed clearWith_attributes)
qed

lemma syncWith_spares_prohibited:
  "\<exists>new. domCalls (syncWith removableNames (attributeWrites fm) ks el s) = domCalls s @ new
      \<and> (\<forall>c\<in>set new. callName c \<notin> set prohibitedAttributeNames)"
  "name \<in> set prohibitedAttributeNames \<Longrightarrow>
     attributes (syncWith removableNames (attributeWrites fm) ks el s) e name = attributes s e name"
proof -
  show "\<exists>new. domCalls (syncWith removableNames (attributeWrites fm) ks el s) = domCalls s @ new
      \<and> (\<forall>c\<in>set new. callName c \<notin> set prohibitedAttributeNames)"
    by (auto simp: syncWith_calls removedBy_removable_allowed attributeWrites_allowed)
  assume p: "name \<in> set prohibitedAttributeNames"
  then have "name \<notin> set (removedBy removableNames s el)"
    using removedBy_removable_allowed by blast
  moreover from p have "map_of (rev (attributeWrites fm)) name = None"
    using attributeWrites_allowed [of name _ fm] by (auto simp: map_of_eq_None_iff)
  ultimately show "attributes (syncWith removableNames (attributeWrites fm) ks el s) e name = attributes s e name"
    by (simp add: syncWith_attributes map_add_def)
qed

lemma applyAttributes_spares_prohibited:
  "\<exists>new. domCalls (applyAttributes ap fl lf s) = domCalls s @ new
      \<and> (\<forall>c\<in>set new. callName c \<notin> set prohibitedAttributeNames)"
  "name \<in> set prohibitedAttributeNames \<Longrightarrow>
     attributes (applyAttributes ap fl lf s) e name = attributes s e name"
proof -
  show "\<exists>new. domCalls (applyAttributes ap fl lf s) = domCalls s @ new
      \<and> (\<forall>c\<in>set new. callName c \<notin> set prohibitedAttributeNames)"
    using clearAttributes_spares_prohibited(1) syncWith_spares_prohibited(1)
    by (simp add: applyAttributes_closed clearAttributes_closed [symmetric] split: option.splits)
  assume "name \<in> set prohibitedAttributeNames"
  then show "attributes (applyAttributes ap fl lf s) e name = attributes s e name"
    using clearAttributes_spares_prohibited(2) syncWith_spares_prohibited(2)
    by (simp add: applyAttributes_closed clearAttributes_closed [symmetric] split: option.splits)
qed

lemma type_writes_src:
  "attributeWrites_src [(str ''type'', JString (str ''note''))] = [(str ''data-type'', str ''note'')]"
  "appliedKeys_src [(str ''type'', JString (str ''note''))] = [str ''type'']"
  "attributeWrites [(str ''type'', JString (str ''note''))] = []"
  "appliedKeys [(str ''type'', JString (str ''note''))] = []"
  by (simp_all add: attributeWrites_src_def appliedKeys_src_def attributeWrites_def appliedKeys_def
      keptEntries_def prohibitedAttributeNames_def restFrontmatter_def
      dataName_def sanitizeKey_map isKeyChar_def str_def processValue_src_def)

text \<open>
  C4: metadata with a key that sanitizes to \<open>type\<close> or \<open>mode\<close> must never make
  \<open>applyAttributes\<close> or \<open>clearAttributes\<close> write or remove \<open>data-type\<close> or
  \<open>data-mode\<close>. The file with the prohibited names keeps to it (the lemmas above, and
  the last conjunct here). \<open>src/main.ts\<close> has no such guard: with the frontmatter
  \<open>{type: "note"}\<close> its \<open>applyAttributes\<close> overwrites the host's
  \<open>data-type="markdown"\<close> with \<open>note\<close>, and its \<open>clearAttributes\<close> then removes
  \<open>data-type\<close> altogether.
\<close>

theorem src_writes_and_removes_data_type:
  "attributes (initial hostAttributes) 0 (str ''data-type'') = Some (str ''markdown'')
   \<and> domCalls (applyAttributes_src (sampleApp (Some [(str ''type'', JString (str ''note''))]))
        (Some sampleFile) (Some sampleLeaf) (initial hostAttributes))
      = [SetAttribute 0 (str ''data-type'') (str ''note'')]
   \<and> attributes (applyAttributes_src (sampleApp (Some [(str ''type'', JString (str ''note''))]))
        (Some sampleFile) (Some sampleLeaf) (initial hostAttributes)) 0 (str ''data-type'')
      = Some (str ''note'')
   \<and> domCalls (clearAttributes_src 0
        (applyAttributes_src (sampleApp (Some [(str ''type'', JString (str ''note''))]))
          (Some sampleFile) (Some sampleLeaf) (initial hostAttributes)))
      = [SetAttribute 0 (str ''data-type'') (str ''note''), RemoveAttribute 0 (str ''data-type'')]
   \<and> attributes (clearAttributes_src 0
        (applyAttributes_src (sampleApp (Some [(str ''type'', JString (str ''note''))]))
          (Some sampleFile) (Some sampleLeaf) (initial hostAttributes))) 0 (str ''data-type'')
      = None
   \<and> domCalls (applyAttributes (sampleApp (Some [(str ''type'', JString (str ''note''))]))
        (Some sampleFile) (Some sampleLeaf) (initial hostAttributes)) = []"
proof -
  have tracked: "removedBy f (initial hostAttributes) 0 = []" for f
    by (simp add: removedBy_def initial_def)
  have host: "attributes (initial hostAttributes) 0 (str ''data-type'') = Some (str ''markdown'')"
    "domCalls (initial hostAttributes) = []"
    by (simp_all add: initial_def hostAttributes_def str_def)
  have name: "dataName (str ''type'') = str ''data-type''"
    by (simp add: dataName_def str_def)
  show ?thesis
    by (simp add: host applyAttributes_src_closed applyAttributes_closed clearAttributes_src_closed
        sample_resolves syncWith_calls syncWith_attributes syncWith_applied clearWith_calls
        clearWith_attributes type_writes_src tracked removedBy_def name initial_consistent(2))
qed

section \<open>Value serialization\<close>

lemma replicate_numeral: "replicate (numeral k) x = x # replicate (pred_numeral k) x"
  by (simp add: numeral_eq_Suc)

lemma unat_digit: "n < 10 \<Longrightarrow> unat (of_nat n :: code_unit) = n"
  by (simp add: unat_of_nat)

lemma digit_unit:
  assumes "n < 10"
  shows "unat (0x30 + of_nat n :: code_unit) = 48 + n"
proof -
  from assms have "unat (of_nat n :: code_unit) = n"
    by (simp add: unat_of_nat)
  with assms show ?thesis
    by (simp add: unat_word_ariths)
qed

lemma digit_range:
  assumes "n < 10"
  shows "0x30 \<le> (0x30 + of_nat n :: code_unit) \<and> (0x30 + of_nat n :: code_unit) \<le> 0x39"
  using digit_unit [OF assms] assms by (simp add: word_le_nat_alt)

lemma decimal_digits: "d \<in> set (decimal n) \<Longrightarrow> 0x30 \<le> d \<and> d \<le> 0x39"
proof (induction n arbitrary: d rule: decimal.induct)
  case (1 n)
  show ?case
  proof (cases "n < 10")
    case True
    with "1.prems" have "d = 0x30 + of_nat n"
      by (subst (asm) decimal.simps) simp
    with True digit_range [of n] show ?thesis by simp
  next
    case False
    with "1.prems" have "d \<in> set (decimal (n div 10)) \<or> d = 0x30 + of_nat (n mod 10)"
      by (subst (asm) decimal.simps) auto
    with False "1.IH" digit_range [of "n mod 10"] show ?thesis by auto
  qed
qed

lemma decimal_nonempty: "decimal n \<noteq> []"
  by (subst decimal.simps) simp

lemma decimal_no_leading_zero: "0 < n \<Longrightarrow> hd (decimal n) \<noteq> 0x30"
proof (induction n rule: decimal.induct)
  case (1 n)
  show ?case
  proof (cases "n < 10")
    case True
    with "1.prems" digit_unit [of n] have "unat (0x30 + of_nat n :: code_unit) \<noteq> unat (0x30 :: code_unit)"
      by simp
    then have "(0x30 + of_nat n :: code_unit) \<noteq> 0x30" by auto
    with True show ?thesis by (subst decimal.simps) simp
  next
    case False
    then have "0 < n div 10" by simp
    with False "1.IH" have "hd (decimal (n div 10)) \<noteq> 0x30" by simp
    with False show ?thesis
      by (subst decimal.simps) (simp add: decimal_nonempty)
  qed
qed

lemma digitsValue_snoc: "digitsValue (ds @ [d]) = 10 * digitsValue ds + unat (d - 0x30)"
  by (simp add: digitsValue_def)

lemma digitsValue_decimal: "digitsValue (decimal n) = n"
proof (induction n rule: decimal.induct)
  case (1 n)
  show ?case
  proof (cases "n < 10")
    case True
    then show ?thesis
      by (subst decimal.simps) (simp add: digitsValue_def unat_digit)
  next
    case False
    with "1.IH" have "digitsValue (decimal (n div 10)) = n div 10" by simp
    with False show ?thesis
      by (subst decimal.simps) (simp add: digitsValue_snoc unat_digit)
  qed
qed

lemma decimal_times_ten:
  assumes "0 < s" and "s mod 10 = 0"
  shows "decimal s = decimal (s div 10) @ [0x30]"
proof -
  from assms have "\<not> s < 10" by auto
  with assms(2) show ?thesis by (subst decimal.simps) simp
qed

lemma stripZeros_pos: "0 < s \<Longrightarrow> 0 < stripZeros s"
  by (induction s rule: stripZeros.induct) (subst stripZeros.simps, auto)

lemma decimal_stripZeros:
  "0 < s \<Longrightarrow> \<exists>t. decimal s = decimal (stripZeros s) @ replicate t 0x30"
proof (induction s rule: stripZeros.induct)
  case (1 s)
  show ?case
  proof (cases "s mod 10 = 0")
    case True
    with "1.prems" have pos: "0 < s div 10" by auto
    with "1.IH" True "1.prems" obtain t where
      t: "decimal (s div 10) = decimal (stripZeros (s div 10)) @ replicate t 0x30" by auto
    have "stripZeros s = stripZeros (s div 10)"
      using True "1.prems" by (subst stripZeros.simps) simp
    with t decimal_times_ten [OF "1.prems" True]
    have "decimal s = decimal (stripZeros s) @ replicate (Suc t) 0x30"
      by (simp add: replicate_append_same)
    then show ?thesis by blast
  next
    case False
    then have "stripZeros s = s" by (subst stripZeros.simps) simp
    then have "decimal s = decimal (stripZeros s) @ replicate 0 0x30" by simp
    then show ?thesis by blast
  qed
qed

lemma integer_toString:
  assumes "0 < s" and "length (decimal s) \<le> 21"
  shows "Number_toString (Finite negative s (int (length (decimal s)))) =
     (if negative then [0x2D] else []) @ decimal s"
proof -
  from decimal_stripZeros [OF assms(1)] obtain t where
    t: "decimal s = decimal (stripZeros s) @ replicate t 0x30" by blast
  then have len: "length (decimal s) = length (decimal (stripZeros s)) + t"
    by (metis length_append length_replicate)
  have "positiveToString (decimal (stripZeros s)) (int (length (decimal s))) = decimal s"
    using assms(2) len t by (simp add: positiveToString_def Let_def)
  with assms(1) show ?thesis by simp
qed

lemma quoteUnit_plain:
  assumes "0x20 \<le> c" "c \<noteq> 0x22" "c \<noteq> 0x5C" "c < 0xD800 \<or> 0xDFFF < c"
  shows "quoteUnit c = [c]" and "\<not> isLeadingSurrogate c"
  using assms
  by (auto simp: quoteUnit_def isLeadingSurrogate_def isTrailingSurrogate_def
      word_le_nat_alt word_less_nat_alt)

lemma quoteUnits_plain:
  "\<forall>c\<in>set t. 0x20 \<le> c \<and> c \<noteq> 0x22 \<and> c \<noteq> 0x5C \<and> (c < 0xD800 \<or> 0xDFFF < c) \<Longrightarrow>
     quoteUnits t = t"
  by (induction t rule: quoteUnits.induct) (simp_all add: quoteUnit_plain)


lemma number_examples:
  "Number_toString (Finite False 27 2) = str ''27''"
  "Number_toString (Finite True 3 1) = str ''-3''"
  "Number_toString (Finite False 1 3) = str ''100''"
  "Number_toString (Finite False 45 1) = str ''4.5''"
  "Number_toString (Finite False 123456 3) = str ''123.456''"
  "Number_toString (Finite True 0 0) = str ''0''"
  "Number_toString (Finite False 5 0) = str ''0.5''"
  "Number_toString (Finite False 1 (- 5)) = str ''0.000001''"
  "Number_toString (Finite False 1 (- 6)) = str ''1e-7''"
  "Number_toString (Finite False 15 (- 6)) = str ''1.5e-7''"
  "Number_toString (Finite False 9223372036854776 19) = str ''9223372036854776000''"
  "Number_toString (Finite False 1 21) = str ''100000000000000000000''"
  "Number_toString (Finite False 1 22) = str ''1e+21''"
  "Number_toString (Finite True 12345 26) = str ''-1.2345e+25''"
  "Number_toString NaN = str ''NaN''"
  "Number_toString PosInfinity = str ''Infinity''"
  "Number_toString NegInfinity = str ''-Infinity''"
  by (simp_all add: positiveToString_def decimal.simps stripZeros.simps replicate_numeral str_def)

lemma json_examples:
  "JSON_stringify (JString [0x61, 0x22, 0x5C, 0x0A, 0x09, 0x01, 0xD83D, 0xDE00, 0xDC00]) =
     [0x22, 0x61, 0x5C, 0x22, 0x5C, 0x5C, 0x5C, 0x6E, 0x5C, 0x74,
      0x5C, 0x75, 0x30, 0x30, 0x30, 0x31, 0xD83D, 0xDE00,
      0x5C, 0x75, 0x64, 0x63, 0x30, 0x30, 0x22]"
  "JSON_stringify (JString [0x08, 0x0C, 0x0D, 0x1F, 0xD800, 0x7F]) =
     [0x22, 0x5C, 0x62, 0x5C, 0x66, 0x5C, 0x72, 0x5C, 0x75, 0x30, 0x30, 0x31, 0x66,
      0x5C, 0x75, 0x64, 0x38, 0x30, 0x30, 0x7F, 0x22]"
  "JSON_stringify (JArray []) = str ''[]''"
  "JSON_stringify (JObject []) = str ''{}''"
  "JSON_stringify (JArray [JNumber (Finite False 45 1), JNumber NaN, JNumber NegInfinity,
      JNull, JBoolean False]) = str ''[4.5,null,null,null,false]''"
  "JSON_stringify (JObject [(str ''a'', JArray [JNumber (Finite False 1 1), JNull, JBoolean True]),
      (str ''b'', JObject [(str ''c'', JString (str ''x''))])])
     = str ''{\"a\":[1,null,true],\"b\":{\"c\":\"x\"}}''"
  by (simp_all add: quoteJSONString_def quoteUnit_def unicodeEscape_def hexDigit_def
      isLeadingSurrogate_def isTrailingSurrogate_def positiveToString_def decimal.simps
      stripZeros.simps str_def)

lemma json_plain_string:
  "\<forall>c\<in>set t. 0x20 \<le> c \<and> c \<noteq> 0x22 \<and> c \<noteq> 0x5C \<and> (c < 0xD800 \<or> 0xDFFF < c) \<Longrightarrow>
     JSON_stringify (JString t) = [0x22] @ t @ [0x22]"
  by (simp add: quoteJSONString_def quoteUnits_plain)

lemma processValue_cases:
  "processValue (JString t) = t"
  "processValue (JNumber n) = Number_toString n"
  "processValue (JBoolean b) = (if b then str ''true'' else str ''false'')"
  "processValue JNull = str ''null''"
  "processValue (JArray xs) = JSON_stringify (JArray xs)"
  "processValue (JObject ps) = JSON_stringify (JObject ps)"
  by (simp_all add: processValue_def)

lemma processValue_src_cases:
  "processValue_src (JString t) = t"
  "processValue_src (JNumber n) = Number_toString n"
  "processValue_src (JBoolean b) = (if b then str ''true'' else str ''false'')"
  "processValue_src JNull = str ''null''"
  "processValue_src (JArray xs) = JSON_stringify (JArray xs)"
  "processValue_src (JObject ps) = JSON_stringify (JObject ps)"
  by (simp_all add: processValue_src_def)

lemma processValue_src_eq: "processValue_src v = processValue v"
  by (cases v) (simp_all add: processValue_cases processValue_src_cases)

lemma applyAttributes_calls:
  assumes "containerEl l = Some el" and "frontmatterOf ap f = Some fm"
  shows "domCalls (applyAttributes ap (Some f) (Some l) s) =
     domCalls s @ map (RemoveAttribute el) (removedBy removableNames s el)
       @ map (\<lambda>(key, v). SetAttribute el (dataName (sanitizeKey key)) (processValue v))
           (filter (\<lambda>(key, v). dataName (sanitizeKey key) \<notin> set prohibitedAttributeNames) fm)"
  using assms
  by (simp add: applyAttributes_closed syncWith_calls attributeWrites_def keptEntries_def
      case_prod_unfold comp_def)

lemma applyAttributes_src_calls:
  assumes "leafContentQuery l = Some el" and "frontmatterOf ap f = Some fm"
  shows "domCalls (applyAttributes_src ap (Some f) (Some l) s) =
     domCalls s @ map (RemoveAttribute el) (removedBy (map dataName) s el)
       @ map (\<lambda>(key, v). SetAttribute el (dataName (sanitizeKey key)) (processValue_src v))
           (filter (\<lambda>(key, v). key \<noteq> str ''position'') fm)"
  using assms
  by (simp add: applyAttributes_src_closed syncWith_calls attributeWrites_src_def
      restFrontmatter_def case_prod_unfold comp_def)

lemma sample_writes:
  "attributeWrites sampleFrontmatter =
     [(str ''data-tags'', str ''[\"travel\",\"asia\"]''),
      (str ''data-start'', str ''2025-10-27''),
      (str ''data-end'', str ''null''),
      (str ''data-insurance'', str ''true'')]"
  "attributeWrites_src sampleFrontmatter =
     [(str ''data-tags'', str ''[\"travel\",\"asia\"]''),
      (str ''data-start'', str ''2025-10-27''),
      (str ''data-end'', str ''null''),
      (str ''data-insurance'', str ''true'')]"
  by (simp_all add: attributeWrites_def attributeWrites_src_def keptEntries_def restFrontmatter_def
      sampleFrontmatter_def prohibitedAttributeNames_def dataName_def sanitizeKey_map
      isKeyChar_def str_def processValue_cases processValue_src_cases quoteJSONString_def
      quoteUnit_def isLeadingSurrogate_def isTrailingSurrogate_def)

lemma sample_attributes:
  "attributes (applyAttributes (sampleApp (Some sampleFrontmatter)) (Some sampleFile)
      (Some sampleLeaf) (initial hostAttributes)) 0
   = [str ''data-type'' \<mapsto> str ''markdown'', str ''data-mode'' \<mapsto> str ''source'',
      str ''data-tags'' \<mapsto> str ''[\"travel\",\"asia\"]'',
      str ''data-start'' \<mapsto> str ''2025-10-27'',
      str ''data-end'' \<mapsto> str ''null'',
      str ''data-insurance'' \<mapsto> str ''true'']"
  "attributes (applyAttributes_src (sampleApp (Some sampleFrontmatter)) (Some sampleFile)
      (Some sampleLeaf) (initial hostAttributes)) 0
   = [str ''data-type'' \<mapsto> str ''markdown'', str ''data-mode'' \<mapsto> str ''source'',
      str ''data-tags'' \<mapsto> str ''[\"travel\",\"asia\"]'',
      str ''data-start'' \<mapsto> str ''2025-10-27'',
      str ''data-end'' \<mapsto> str ''null'',
      str ''data-insurance'' \<mapsto> str ''true'']"
proof -
  have untracked: "removedBy nm (initial hostAttributes) 0 = []" for nm
    by (simp add: removedBy_def initial_def)
  have host: "attributes (initial hostAttributes) 0 =
      [str ''data-type'' \<mapsto> str ''markdown'', str ''data-mode'' \<mapsto> str ''source'']"
    by (simp add: initial_def hostAttributes_def)
  show "attributes (applyAttributes (sampleApp (Some sampleFrontmatter)) (Some sampleFile)
      (Some sampleLeaf) (initial hostAttributes)) 0
   = [str ''data-type'' \<mapsto> str ''markdown'', str ''data-mode'' \<mapsto> str ''source'',
      str ''data-tags'' \<mapsto> str ''[\"travel\",\"asia\"]'',
      str ''data-start'' \<mapsto> str ''2025-10-27'',
      str ''data-end'' \<mapsto> str ''null'',
      str ''data-insurance'' \<mapsto> str ''true'']"
    by (simp add: applyAttributes_closed sample_resolves syncWith_attributes untracked host
        sample_writes)
  show "attributes (applyAttributes_src (sampleApp (Some sampleFrontmatter)) (Some sampleFile)
      (Some sampleLeaf) (initial hostAttributes)) 0
   = [str ''data-type'' \<mapsto> str ''markdown'', str ''data-mode'' \<mapsto> str ''source'',
      str ''data-tags'' \<mapsto> str ''[\"travel\",\"asia\"]'',
      str ''data-start'' \<mapsto> str ''2025-10-27'',
      str ''data-end'' \<mapsto> str ''null'',
      str ''data-insurance'' \<mapsto> str ''true'']"
    by (simp add: applyAttributes_src_closed sample_resolves syncWith_attributes untracked host
        sample_writes)
qed

lemma numeric_calls:
  "domCalls (applyAttributes (sampleApp (Some numericFrontmatter)) (Some sampleFile)
       (Some sampleLeaf) (initial hostAttributes))
     = [SetAttribute 0 (str ''data-rating'') (str ''4.5''),
        SetAttribute 0 (str ''data-count'') (str ''27''),
        SetAttribute 0 (str ''data-big'') (str ''1e+21''),
        SetAttribute 0 (str ''data-ratio'') (str ''NaN''),
        SetAttribute 0 (str ''data-nested'') (str ''{\"a\":[1,null]}'')]"
  "domCalls (applyAttributes_src (sampleApp (Some numericFrontmatter)) (Some sampleFile)
       (Some sampleLeaf) (initial hostAttributes))
     = [SetAttribute 0 (str ''data-rating'') (str ''4.5''),
        SetAttribute 0 (str ''data-count'') (str ''27''),
        SetAttribute 0 (str ''data-big'') (str ''1e+21''),
        SetAttribute 0 (str ''data-ratio'') (str ''NaN''),
        SetAttribute 0 (str ''data-nested'') (str ''{\"a\":[1,null]}'')]"
proof -
  have start: "domCalls (initial hostAttributes) = []" "removedBy nm (initial hostAttributes) 0 = []" for nm
    by (simp_all add: removedBy_def initial_def)
  have writes: "attributeWrites numericFrontmatter =
     [(str ''data-rating'', str ''4.5''), (str ''data-count'', str ''27''),
      (str ''data-big'', str ''1e+21''), (str ''data-ratio'', str ''NaN''),
      (str ''data-nested'', str ''{\"a\":[1,null]}'')]"
    "attributeWrites_src numericFrontmatter =
     [(str ''data-rating'', str ''4.5''), (str ''data-count'', str ''27''),
      (str ''data-big'', str ''1e+21''), (str ''data-ratio'', str ''NaN''),
      (str ''data-nested'', str ''{\"a\":[1,null]}'')]"
    by (simp_all add: attributeWrites_def attributeWrites_src_def keptEntries_def restFrontmatter_def
        numericFrontmatter_def prohibitedAttributeNames_def dataName_def sanitizeKey_map
        isKeyChar_def str_def processValue_cases processValue_src_cases quoteJSONString_def
        quoteUnit_def isLeadingSurrogate_def isTrailingSurrogate_def positiveToString_def
        decimal.simps stripZeros.simps)
  show "domCalls (applyAttributes (sampleApp (Some numericFrontmatter)) (Some sampleFile)
       (Some sampleLeaf) (initial hostAttributes))
     = [SetAttribute 0 (str ''data-rating'') (str ''4.5''),
        SetAttribute 0 (str ''data-count'') (str ''27''),
        SetAttribute 0 (str ''data-big'') (str ''1e+21''),
        SetAttribute 0 (str ''data-ratio'') (str ''NaN''),
        SetAttribute 0 (str ''data-nested'') (str ''{\"a\":[1,null]}'')]"
    by (simp add: applyAttributes_closed sample_resolves syncWith_calls start writes)
  show "domCalls (applyAttributes_src (sampleApp (Some numericFrontmatter)) (Some sampleFile)
       (Some sampleLeaf) (initial hostAttributes))
     = [SetAttribute 0 (str ''data-rating'') (str ''4.5''),
        SetAttribute 0 (str ''data-count'') (str ''27''),
        SetAttribute 0 (str ''data-big'') (str ''1e+21''),
        SetAttribute 0 (str ''data-ratio'') (str ''NaN''),
        SetAttribute 0 (str ''data-nested'') (str ''{\"a\":[1,null]}'')]"
    by (simp add: applyAttributes_src_closed sample_resolves syncWith_calls start writes)
qed

text \<open>
  C6: for every metadata key that is not skipped, the value \<open>applyAttributes\<close> passes
  to \<open>setAttribute\<close> is the value's textual form when it is a string, a number or a
  boolean, and its JSON text when it is an array or an object; null is written as
  \<open>null\<close>. Both source files serialize alike. The textual form of a string is the
  string, of a boolean \<open>true\<close> or \<open>false\<close>, of a number its \<open>Number::toString\<close>
  text: the plain digits for an integer of up to 21 digits (27, and
  \<open>9223372036854776000\<close> for \<open>2^63\<close>), a decimal point for fractions (4.5), the
  exponential form beyond (\<open>1e+21\<close>, \<open>1e-7\<close>), \<open>NaN\<close> and \<open>Infinity\<close>. The JSON
  text quotes strings (escaping quotes, backslashes, control characters and unpaired
  surrogates), separates elements and members with bare commas, and has \<open>null\<close> for
  \<open>NaN\<close> and the infinities. For the snapshot
  \<open>{tags: ["travel","asia"], start: "2025-10-27", end: null, insurance: true}\<close> the
  element ends with \<open>data-tags='["travel","asia"]'\<close>, \<open>data-start="2025-10-27"\<close>,
  \<open>data-end="null"\<close> and \<open>data-insurance="true"\<close> beside the host's own attributes.
\<close>

theorem value_serialization:
  "processValue (JString t) = t
   \<and> processValue (JNumber x) = Number_toString x
   \<and> processValue (JBoolean b) = (if b then str ''true'' else str ''false'')
   \<and> processValue JNull = str ''null''
   \<and> processValue (JArray xs) = JSON_stringify (JArray xs)
   \<and> processValue (JObject ps) = JSON_stringify (JObject ps)
   \<and> processValue_src v = processValue v
   \<and> digitsValue (decimal m) = m
   \<and> (\<forall>d\<in>set (decimal m). 0x30 \<le> d \<and> d \<le> 0x39)
   \<and> (0 < m \<longrightarrow> hd (decimal m) \<noteq> 0x30)
   \<and> (0 < m \<and> length (decimal m) \<le> 21 \<longrightarrow>
        Number_toString (Finite negative m (int (length (decimal m)))) =
          (if negative then [0x2D] else []) @ decimal m)
   \<and> Number_toString (Finite False 27 2) = str ''27''
   \<and> Number_toString (Finite True 3 1) = str ''-3''
   \<and> Number_toString (Finite False 1 3) = str ''100''
   \<and> Number_toString (Finite False 45 1) = str ''4.5''
   \<and> Number_toString (Finite False 123456 3) = str ''123.456''
   \<and> Number_toString (Finite True 0 0) = str ''0''
   \<and> Number_toString (Finite False 5 0) = str ''0.5''
   \<and> Number_toString (Finite False 1 (- 5)) = str ''0.000001''
   \<and> Number_toString (Finite False 1 (- 6)) = str ''1e-7''
   \<and> Number_toString (Finite False 15 (- 6)) = str ''1.5e-7''
   \<and> Number_toString (Finite False 9223372036854776 19) = str ''9223372036854776000''
   \<and> Number_toString (Finite False 1 21) = str ''100000000000000000000''
   \<and> Number_toString (Finite False 1 22) = str ''1e+21''
   \<and> Number_toString (Finite True 12345 26) = str ''-1.2345e+25''
   \<and> Number_toString NaN = str ''NaN''
   \<and> Number_toString PosInfinity = str ''Infinity''
   \<and> Number_toString NegInfinity = str ''-Infinity''
   \<and> ((\<forall>c\<in>set t. 0x20 \<le> c \<and> c \<noteq> 0x22 \<and> c \<noteq> 0x5C \<and> (c < 0xD800 \<or> 0xDFFF < c)) \<longrightarrow>
        JSON_stringify (JString t) = [0x22] @ t @ [0x22])
   \<and> JSON_stringify (JString [0x61, 0x22, 0x5C, 0x0A, 0x09, 0x01, 0xD83D, 0xDE00, 0xDC00]) =
        [0x22, 0x61, 0x5C, 0x22, 0x5C, 0x5C, 0x5C, 0x6E, 0x5C, 0x74,
         0x5C, 0x75, 0x30, 0x30, 0x30, 0x31, 0xD83D, 0xDE00,
         0x5C, 0x75, 0x64, 0x63, 0x30, 0x30, 0x22]
   \<and> JSON_stringify (JString [0x08, 0x0C, 0x0D, 0x1F, 0xD800, 0x7F]) =
        [0x22, 0x5C, 0x62, 0x5C, 0x66, 0x5C, 0x72, 0x5C, 0x75, 0x30, 0x30, 0x31, 0x66,
         0x5C, 0x75, 0x64, 0x38, 0x30, 0x30, 0x7F, 0x22]
   \<and> JSON_stringify (JNumber x) = (if isFinite x then Number_toString x else str ''null'')
   \<and> JSON_stringify (JBoolean b) = (if b then str ''true'' else str ''false'')
   \<and> JSON_stringify JNull = str ''null''
   \<and> JSON_stringify (JArray xs) = [0x5B] @ join [0x2C] (map JSON_stringify xs) @ [0x5D]
   \<and> JSON_stringify (JObject ps) =
        [0x7B] @ join [0x2C] (map (\<lambda>(k, v). JSON_stringify (JString k) @ [0x3A] @ JSON_stringify v) ps)
          @ [0x7D]
   \<and> join sep [] = [] \<and> join sep [a] = a \<and> join sep (a # a' # as) = a @ sep @ join sep (a' # as)
   \<and> JSON_stringify (JArray []) = str ''[]''
   \<and> JSON_stringify (JObject []) = str ''{}''
   \<and> JSON_stringify (JArray [JNumber (Finite False 45 1), JNumber NaN, JNumber NegInfinity,
          JNull, JBoolean False]) = str ''[4.5,null,null,null,false]''
   \<and> JSON_stringify (JObject [(str ''a'', JArray [JNumber (Finite False 1 1), JNull, JBoolean True]),
          (str ''b'', JObject [(str ''c'', JString (str ''x''))])])
        = str ''{\"a\":[1,null,true],\"b\":{\"c\":\"x\"}}''
   \<and> (containerEl l = Some el \<and> frontmatterOf ap f = Some fm \<longrightarrow>
        domCalls (applyAttributes ap (Some f) (Some l) s) =
          domCalls s @ map (RemoveAttribute el) (removedBy removableNames s el)
            @ map (\<lambda>(key, v). SetAttribute el (dataName (sanitizeKey key)) (processValue v))
                (filter (\<lambda>(key, v). dataName (sanitizeKey key) \<notin> set prohibitedAttributeNames) fm))
   \<and> (leafContentQuery l = Some el \<and> frontmatterOf ap f = Some fm \<longrightarrow>
        domCalls (applyAttributes_src ap (Some f) (Some l) s) =
          domCalls s @ map (RemoveAttribute el) (removedBy (map dataName) s el)
            @ map (\<lambda>(key, v). SetAttribute el (dataName (sanitizeKey key)) (processValue_src v))
                (filter (\<lambda>(key, v). key \<noteq> str ''position'') fm))
   \<and> domCalls (applyAttributes (sampleApp (Some numericFrontmatter)) (Some sampleFile)
         (Some sampleLeaf) (initial hostAttributes))
       = [SetAttribute 0 (str ''data-rating'') (str ''4.5''),
          SetAttribute 0 (str ''data-count'') (str ''27''),
          SetAttribute 0 (str ''data-big'') (str ''1e+21''),
          SetAttribute 0 (str ''data-ratio'') (str ''NaN''),
          SetAttribute 0 (str ''data-nested'') (str ''{\"a\":[1,null]}'')]
   \<and> domCalls (applyAttributes_src (sampleApp (Some numericFrontmatter)) (Some sampleFile)
         (Some sampleLeaf) (initial hostAttributes))
       = [SetAttribute 0 (str ''data-rating'') (str ''4.5''),
          SetAttribute 0 (str ''data-count'') (str ''27''),
          SetAttribute 0 (str ''data-big'') (str ''1e+21''),
          SetAttribute 0 (str ''data-ratio'') (str ''NaN''),
          SetAttribute 0 (str ''data-nested'') (str ''{\"a\":[1,null]}'')]
   \<and> attributes (applyAttributes (sampleApp (Some sampleFrontmatter)) (Some sampleFile)
         (Some sampleLeaf) (initial hostAttributes)) 0
       = [str ''data-type'' \<mapsto> str ''markdown'', str ''data-mode'' \<mapsto> str ''source'',
          str ''data-tags'' \<mapsto> str ''[\"travel\",\"asia\"]'',
          str ''data-start'' \<mapsto> str ''2025-10-27'',
          str ''data-end'' \<mapsto> str ''null'',
          str ''data-insurance'' \<mapsto> str ''true'']
   \<and> attributes (applyAttributes_src (sampleApp (Some sampleFrontmatter)) (Some sampleFile)
         (Some sampleLeaf) (initial hostAttributes)) 0
       = [str ''data-type'' \<mapsto> str ''markdown'', str ''data-mode'' \<mapsto> str ''source'',
          str ''data-tags'' \<mapsto> str ''[\"travel\",\"asia\"]'',
          str ''data-start'' \<mapsto> str ''2025-10-27'',
          str ''data-end'' \<mapsto> str ''null'',
          str ''data-insurance'' \<mapsto> str ''true'']"
proof -
  have members: "JSON_stringify (JObject ps) =
        [0x7B] @ join [0x2C] (map (\<lambda>(k, v). JSON_stringify (JString k) @ [0x3A] @ JSON_stringify v) ps)
          @ [0x7D]"
    by simp
  have integers: "0 < m \<and> length (decimal m) \<le> 21 \<longrightarrow>
        Number_toString (Finite negative m (int (length (decimal m)))) =
          (if negative then [0x2D] else []) @ decimal m"
    using integer_toString [of m negative] by blast
  have plain: "(\<forall>c\<in>set t. 0x20 \<le> c \<and> c \<noteq> 0x22 \<and> c \<noteq> 0x5C \<and> (c < 0xD800 \<or> 0xDFFF < c)) \<longrightarrow>
        JSON_stringify (JString t) = [0x22] @ t @ [0x22]"
    using json_plain_string [of t] by blast
  have digits: "\<forall>d\<in>set (decimal m). 0x30 \<le> d \<and> d \<le> 0x39"
    using decimal_digits [of _ m] by blast
  have leading: "0 < m \<longrightarrow> hd (decimal m) \<noteq> 0x30"
    using decimal_no_leading_zero [of m] by blast
  have calls: "containerEl l = Some el \<and> frontmatterOf ap f = Some fm \<longrightarrow>
        domCalls (applyAttributes ap (Some f) (Some l) s) =
          domCalls s @ map (RemoveAttribute el) (removedBy removableNames s el)
            @ map (\<lambda>(key, v). SetAttribute el (dataName (sanitizeKey key)) (processValue v))
                (filter (\<lambda>(key, v). dataName (sanitizeKey key) \<notin> set prohibitedAttributeNames) fm)"
    using applyAttributes_calls [of l el ap f fm s] by blast
  have calls_src: "leafContentQuery l = Some el \<and> frontmatterOf ap f = Some fm \<longrightarrow>
        domCalls (applyAttributes_src ap (Some f) (Some l) s) =
          domCalls s @ map (RemoveAttribute el) (removedBy (map dataName) s el)
            @ map (\<lambda>(key, v). SetAttribute el (dataName (sanitizeKey key)) (processValue_src v))
                (filter (\<lambda>(key, v). key \<noteq> str ''position'') fm)"
    using applyAttributes_src_calls [of l el ap f fm s] by blast
  show ?thesis
    by (intro conjI)
      (rule processValue_cases processValue_src_eq digitsValue_decimal digits leading integers
        number_examples plain json_examples JSON_stringify.simps members join.simps
        calls calls_src numeric_calls sample_attributes)+
qed

theorem value_serialization_witness:
  "domCalls (applyAttributes (sampleApp (Some sampleFrontmatter)) (Some sampleFile)
       (Some sampleLeaf) (initial hostAttributes))
     = [SetAttribute 0 (str ''data-tags'') (str ''[\"travel\",\"asia\"]''),
        SetAttribute 0 (str ''data-start'') (str ''2025-10-27''),
        SetAttribute 0 (str ''data-end'') (str ''null''),
        SetAttribute 0 (str ''data-insurance'') (str ''true'')]
   \<and> domCalls (applyAttributes_src (sampleApp (Some sampleFrontmatter)) (Some sampleFile)
       (Some sampleLeaf) (initial hostAttributes))
     = [SetAttribute 0 (str ''data-tags'') (str ''[\"travel\",\"asia\"]''),
        SetAttribute 0 (str ''data-start'') (str ''2025-10-27''),
        SetAttribute 0 (str ''data-end'') (str ''null''),
        SetAttribute 0 (str ''data-insurance'') (str ''true'')]"
proof -
  have start: "domCalls (initial hostAttributes) = []" "removedBy nm (initial hostAttributes) 0 = []" for nm
    by (simp_all add: removedBy_def initial_def)
  have kept: "map (\<lambda>(key, v). SetAttribute 0 (dataName (sanitizeKey key)) (processValue v))
       (filter (\<lambda>(key, v). dataName (sanitizeKey key) \<notin> set prohibitedAttributeNames) sampleFrontmatter)
     = map (\<lambda>(n, v). SetAttribute 0 n v) (attributeWrites sampleFrontmatter)"
    by (simp add: attributeWrites_def keptEntries_def case_prod_unfold comp_def)
  have kept_src: "map (\<lambda>(key, v). SetAttribute 0 (dataName (sanitizeKey key)) (processValue_src v))
       (filter (\<lambda>(key, v). key \<noteq> str ''position'') sampleFrontmatter)
     = map (\<lambda>(n, v). SetAttribute 0 n v) (attributeWrites_src sampleFrontmatter)"
    by (simp add: attributeWrites_src_def restFrontmatter_def case_prod_unfold comp_def)
  from value_serialization [where l = sampleLeaf and el = 0
      and ap = "sampleApp (Some sampleFrontmatter)" and f = sampleFile and fm = sampleFrontmatter
      and s = "initial hostAttributes"]
  have "domCalls (applyAttributes (sampleApp (Some sampleFrontmatter)) (Some sampleFile)
       (Some sampleLeaf) (initial hostAttributes))
      = map (\<lambda>(n, v). SetAttribute 0 n v) (attributeWrites sampleFrontmatter)"
    and "domCalls (applyAttributes_src (sampleApp (Some sampleFrontmatter)) (Some sampleFile)
       (Some sampleLeaf) (initial hostAttributes))
      = map (\<lambda>(n, v). SetAttribute 0 n v) (attributeWrites_src sampleFrontmatter)"
    by (simp_all only: sample_resolves start kept kept_src simp_thms append_Nil list.map)
  then show ?thesis
    by (simp add: sample_writes)
qed

section \<open>Frame\<close>

lemma removedBy_recorded:
  "set (removedBy removableNames s el) \<subseteq> recordedNames s el"
  "set (removedBy (map dataName) s el) \<subseteq> recordedNames s el"
  by (auto simp: removedBy_def recordedNames_def removableNames_def split: option.splits)

lemma clearWith_attributes_at:
  "attributes (clearWith nm el s) e n =
     (if e = el \<and> n \<in> set (removedBy nm s el) then None else attributes s e n)"
  by (simp add: clearWith_attributes restrict_map_def)

lemma syncWith_attributes_at:
  "attributes (syncWith nm ws ks el s) e n =
     (if e = el
      then (case map_of (rev ws) n of
              Some v \<Rightarrow> Some v
            | None \<Rightarrow> if n \<in> set (removedBy nm s el) then None else attributes s e n)
      else attributes s e n)"
  by (simp add: syncWith_attributes map_add_def restrict_map_def split: option.splits)

lemma unwritten: "n \<notin> fst ` set ws \<Longrightarrow> map_of (rev ws) n = None"
  by (simp add: map_of_eq_None_iff)

lemma writes_within_sanitized:
  "fst ` set (attributeWrites fm) \<subseteq> dataName ` sanitizeKey ` fst ` set fm"
  "fst ` set (attributeWrites_src fm) \<subseteq> dataName ` sanitizeKey ` fst ` set fm"
  using appliedKeys_subset [of fm] appliedKeys_src_subset [of fm]
  by (auto simp: attributeWrites_names attributeWrites_src_names)

lemma applyAttributes_frame:
  assumes "n \<notin> recordedNames s e"
    and "\<And>f fm. fl = Some f \<Longrightarrow> frontmatterOf ap f = Some fm \<Longrightarrow>
            n \<notin> dataName ` sanitizeKey ` fst ` set fm"
  shows "attributes (applyAttributes ap fl lf s) e n = attributes s e n"
    and "attributes (applyAttributes_src ap fl lf s) e n = attributes s e n"
proof -
  from assms(1) have rm: "n \<notin> set (removedBy removableNames s e)"
    "n \<notin> set (removedBy (map dataName) s e)"
    using removedBy_recorded [of s e] by blast+
  have ws: "n \<notin> fst ` set (attributeWrites fm)" "n \<notin> fst ` set (attributeWrites_src fm)"
    if "fl = Some f" "frontmatterOf ap f = Some fm" for f fm
    using assms(2) [OF that] writes_within_sanitized [of fm] by blast+
  show "attributes (applyAttributes ap fl lf s) e n = attributes s e n"
  proof (cases fl)
    case None
    then show ?thesis by (simp add: applyAttributes_closed)
  next
    case (Some f)
    show ?thesis
    proof (cases "frontmatterOf ap f")
      case None
      with \<open>fl = Some f\<close> rm show ?thesis
        by (auto simp: applyAttributes_closed clearWith_attributes_at split: option.splits)
    next
      case (Some fm)
      with \<open>fl = Some f\<close> rm unwritten [OF ws(1) [of f fm]] show ?thesis
        by (auto simp: applyAttributes_closed syncWith_attributes_at split: option.splits)
    qed
  qed
  show "attributes (applyAttributes_src ap fl lf s) e n = attributes s e n"
  proof (cases fl)
    case None
    then show ?thesis by (simp add: applyAttributes_src_closed)
  next
    case (Some f)
    show ?thesis
    proof (cases "frontmatterOf ap f")
      case None
      with \<open>fl = Some f\<close> rm show ?thesis
        by (auto simp: applyAttributes_src_closed clearWith_attributes_at split: option.splits)
    next
      case (Some fm)
      with \<open>fl = Some f\<close> rm unwritten [OF ws(2) [of f fm]] show ?thesis
        by (auto simp: applyAttributes_src_closed syncWith_attributes_at split: option.splits)
    qed
  qed
qed

lemma clearAttributes_frame:
  assumes "n \<notin> recordedNames s e \<or> e \<noteq> el"
  shows "attributes (clearAttributes el s) e n = attributes s e n"
    and "attributes (clearAttributes_src el s) e n = attributes s e n"
proof -
  from assms have "e = el \<longrightarrow> n \<notin> set (removedBy removableNames s el)"
    "e = el \<longrightarrow> n \<notin> set (removedBy (map dataName) s el)"
    using removedBy_recorded [of s el] by blast+
  then show "attributes (clearAttributes el s) e n = attributes s e n"
    "attributes (clearAttributes_src el s) e n = attributes s e n"
    by (auto simp: clearAttributes_closed clearAttributes_src_closed clearWith_attributes_at)
qed

text \<open>
  C10: \<open>applyAttributes\<close> leaves unchanged, on every element, every attribute whose
  name is neither \<open>data-<k>\<close> for a key \<open>k\<close> of the element's prior record nor
  \<open>data-<k'>\<close> for the sanitized form \<open>k'\<close> of a key of the current metadata;
  \<open>clearAttributes\<close> leaves unchanged every attribute outside the recorded key list,
  and every attribute of every other element. In both source files, from any state.
\<close>

theorem attributes_frame:
  "(n \<notin> recordedNames s e
      \<and> (\<forall>f fm. fl = Some f \<and> frontmatterOf ap f = Some fm \<longrightarrow>
            n \<notin> dataName ` sanitizeKey ` fst ` set fm)
    \<longrightarrow> attributes (applyAttributes ap fl lf s) e n = attributes s e n
      \<and> attributes (applyAttributes_src ap fl lf s) e n = attributes s e n)
   \<and> (n \<notin> recordedNames s e \<or> e \<noteq> el
    \<longrightarrow> attributes (clearAttributes el s) e n = attributes s e n
      \<and> attributes (clearAttributes_src el s) e n = attributes s e n)"
  using applyAttributes_frame [of n s e fl ap lf] clearAttributes_frame [of n s e el]
  by blast

theorem attributes_frame_witness:
  "attributes (applyAttributes (sampleApp (Some sampleFrontmatter)) (Some sampleFile)
      (Some sampleLeaf) (initial hostAttributes)) 0 (str ''data-mode'') = Some (str ''source'')
   \<and> attributes (applyAttributes_src (sampleApp (Some sampleFrontmatter)) (Some sampleFile)
      (Some sampleLeaf) (initial hostAttributes)) 0 (str ''data-mode'') = Some (str ''source'')
   \<and> attributes (clearAttributes 0 (initial hostAttributes)) 0 (str ''data-mode'') = Some (str ''source'')
   \<and> attributes (clearAttributes_src 0 (initial hostAttributes)) 0 (str ''data-mode'') = Some (str ''source'')"
proof -
  have unrecorded: "str ''data-mode'' \<notin> recordedNames (initial hostAttributes) 0"
    by (simp add: recordedNames_def initial_def)
  have other: "\<forall>f fm. Some sampleFile = Some f \<and>
      frontmatterOf (sampleApp (Some sampleFrontmatter)) f = Some fm \<longrightarrow>
        str ''data-mode'' \<notin> dataName ` sanitizeKey ` fst ` set fm"
    by (simp add: sample_resolves sampleFrontmatter_def dataName_def sanitizeKey_map
        isKeyChar_def str_def)
  have host: "attributes (initial hostAttributes) 0 (str ''data-mode'') = Some (str ''source'')"
    by (simp add: initial_def hostAttributes_def str_def)
  from attributes_frame [where n = "str ''data-mode''" and s = "initial hostAttributes" and e = 0
      and fl = "Some sampleFile" and ap = "sampleApp (Some sampleFrontmatter)"
      and lf = "Some sampleLeaf" and el = 0] unrecorded other host
  show ?thesis by simp
qed

section \<open>Colliding keys\<close>

lemma valuesSet_append: "valuesSet el n (cs @ ds) = valuesSet el n cs @ valuesSet el n ds"
  by (induction el n cs rule: valuesSet.induct) auto

lemma valuesSet_removes: "valuesSet el n (map (RemoveAttribute e) ns) = []"
  by (induction ns) auto

lemma valuesSet_sets:
  "valuesSet el n (map (\<lambda>(m, v). SetAttribute el m v) ws) = map snd (filter (\<lambda>(m, v). m = n) ws)"
  by (induction ws) auto

lemma map_of_rev_last:
  "filter (\<lambda>(m, v). m = n) ws \<noteq> [] \<Longrightarrow>
     map_of (rev ws) n = Some (snd (last (filter (\<lambda>(m, v). m = n) ws)))"
proof (induction ws rule: rev_induct)
  case Nil
  then show ?case by simp
next
  case (snoc w ws)
  then show ?case by (cases w) auto
qed

lemma writes_for_key:
  "filter (\<lambda>(m, v). m = dataName K) (map (\<lambda>(key, v). (dataName (sanitizeKey key), pv v)) es) =
     map (\<lambda>(key, v). (dataName (sanitizeKey key), pv v)) (filter (\<lambda>(key, v). sanitizeKey key = K) es)"
  by (induction es) auto

lemma keys_for_key:
  "filter ((=) K) (map (\<lambda>(key, v). sanitizeKey key) es) =
     map (\<lambda>(key, v). sanitizeKey key) (filter (\<lambda>(key, v). sanitizeKey key = K) es)"
  by (induction es) auto

lemma kept_for_key:
  "dataName K \<notin> set prohibitedAttributeNames \<Longrightarrow>
   filter (\<lambda>(key, v). sanitizeKey key = K) (keptEntries fm) =
     filter (\<lambda>(key, v). sanitizeKey key = K) fm"
  unfolding keptEntries_def by (induction fm) auto

lemma new_calls: "drop (length (domCalls s)) (domCalls s @ cs) = cs"
  by simp

lemma syncWith_collisions:
  fixes pv :: "jsval \<Rightarrow> jsstring"
  defines "hits es K \<equiv> filter (\<lambda>(key, v). sanitizeKey key = K) es"
  assumes ws: "ws = map (\<lambda>(key, v). (dataName (sanitizeKey key), pv v)) es"
    and ks: "ks = map (\<lambda>(key, v). sanitizeKey key) es"
  shows "valuesSet el (dataName K)
           (drop (length (domCalls s)) (domCalls (syncWith nm ws ks el s)))
         = map (\<lambda>(key, v). pv v) (hits es K)"
    and "filter ((=) K) (case appliedAttributes (syncWith nm ws ks el s) el of
                          None \<Rightarrow> [] | Some keys \<Rightarrow> keys)
         = map (\<lambda>(key, v). sanitizeKey key) (hits es K)"
    and "hits es K \<noteq> [] \<Longrightarrow>
         attributes (syncWith nm ws ks el s) el (dataName K) = Some (pv (snd (last (hits es K))))"
proof -
  have "valuesSet el (dataName K)
           (drop (length (domCalls s)) (domCalls (syncWith nm ws ks el s)))
         = map snd (filter (\<lambda>(m, v). m = dataName K) ws)"
    by (simp add: syncWith_calls valuesSet_append valuesSet_removes valuesSet_sets)
  also have "\<dots> = map snd (map (\<lambda>(key, v). (dataName (sanitizeKey key), pv v)) (hits es K))"
    by (simp only: ws writes_for_key hits_def)
  also have "\<dots> = map (\<lambda>(key, v). pv v) (hits es K)"
    by (simp add: case_prod_unfold comp_def)
  finally show "valuesSet el (dataName K)
           (drop (length (domCalls s)) (domCalls (syncWith nm ws ks el s)))
         = map (\<lambda>(key, v). pv v) (hits es K)" .
  show "filter ((=) K) (case appliedAttributes (syncWith nm ws ks el s) el of
                          None \<Rightarrow> [] | Some keys \<Rightarrow> keys)
         = map (\<lambda>(key, v). sanitizeKey key) (hits es K)"
    by (simp add: syncWith_applied ks keys_for_key hits_def)
  assume ne: "hits es K \<noteq> []"
  then have "filter (\<lambda>(m, v). m = dataName K) ws \<noteq> []"
    by (simp add: ws writes_for_key hits_def)
  from map_of_rev_last [OF this]
  have "map_of (rev ws) (dataName K) =
      Some (snd (last (map (\<lambda>(key, v). (dataName (sanitizeKey key), pv v)) (hits es K))))"
    by (simp only: ws writes_for_key hits_def)
  also have "\<dots> = Some (pv (snd (last (hits es K))))"
    using ne by (simp add: last_map case_prod_unfold)
  finally show "attributes (syncWith nm ws ks el s) el (dataName K) = Some (pv (snd (last (hits es K))))"
    by (simp add: syncWith_attributes)
qed

lemma two_hits:
  assumes "(k1, v1) \<in> set es" "(k2, v2) \<in> set es" "k1 \<noteq> k2"
    and "sanitizeKey k1 = K" "sanitizeKey k2 = K"
  shows "2 \<le> length (filter (\<lambda>(key, v). sanitizeKey key = K) es)"
proof -
  have "{(k1, v1), (k2, v2)} \<subseteq> set (filter (\<lambda>(key, v). sanitizeKey key = K) es)"
    using assms by auto
  then have "card {(k1, v1), (k2, v2)} \<le> card (set (filter (\<lambda>(key, v). sanitizeKey key = K) es))"
    by (intro card_mono) auto
  also have "\<dots> \<le> length (filter (\<lambda>(key, v). sanitizeKey key = K) es)"
    by (rule card_length)
  finally show ?thesis using assms(3) by simp
qed


lemma applyAttributes_collisions:
  assumes "containerEl l = Some el" and "frontmatterOf ap f = Some fm"
    and "dataName K \<notin> set prohibitedAttributeNames"
  shows "valuesSet el (dataName K)
           (drop (length (domCalls s)) (domCalls (applyAttributes ap (Some f) (Some l) s)))
         = map (\<lambda>(key, v). processValue v) (filter (\<lambda>(key, v). sanitizeKey key = K) fm)"
    and "filter ((=) K) (case appliedAttributes (applyAttributes ap (Some f) (Some l) s) el of
                          None \<Rightarrow> [] | Some keys \<Rightarrow> keys)
         = map (\<lambda>(key, v). sanitizeKey key) (filter (\<lambda>(key, v). sanitizeKey key = K) fm)"
    and "filter (\<lambda>(key, v). sanitizeKey key = K) fm \<noteq> [] \<Longrightarrow>
         attributes (applyAttributes ap (Some f) (Some l) s) el (dataName K)
         = Some (processValue (snd (last (filter (\<lambda>(key, v). sanitizeKey key = K) fm))))"
  using syncWith_collisions [where ws = "attributeWrites fm" and pv = processValue
      and es = "keptEntries fm" and ks = "appliedKeys fm" and el = el and K = K and s = s
      and nm = removableNames] assms
  by (simp_all add: applyAttributes_closed attributeWrites_def appliedKeys_def kept_for_key)

lemma applyAttributes_src_collisions:
  assumes "leafContentQuery l = Some el" and "frontmatterOf ap f = Some fm"
  shows "valuesSet el (dataName K)
           (drop (length (domCalls s)) (domCalls (applyAttributes_src ap (Some f) (Some l) s)))
         = map (\<lambda>(key, v). processValue_src v)
             (filter (\<lambda>(key, v). sanitizeKey key = K) (restFrontmatter fm))"
    and "filter ((=) K) (case appliedAttributes (applyAttributes_src ap (Some f) (Some l) s) el of
                          None \<Rightarrow> [] | Some keys \<Rightarrow> keys)
         = map (\<lambda>(key, v). sanitizeKey key)
             (filter (\<lambda>(key, v). sanitizeKey key = K) (restFrontmatter fm))"
    and "filter (\<lambda>(key, v). sanitizeKey key = K) (restFrontmatter fm) \<noteq> [] \<Longrightarrow>
         attributes (applyAttributes_src ap (Some f) (Some l) s) el (dataName K)
         = Some (processValue_src (snd (last
             (filter (\<lambda>(key, v). sanitizeKey key = K) (restFrontmatter fm)))))"
  using syncWith_collisions [where ws = "attributeWrites_src fm" and pv = processValue_src
      and es = "restFrontmatter fm" and ks = "appliedKeys_src fm" and el = el and K = K and s = s
      and nm = "map dataName"] assms
  by (simp_all add: applyAttributes_src_closed attributeWrites_src_def appliedKeys_src_def)

text \<open>
  C9, as stated: whenever two distinct keys of the metadata sanitize to the same
  attribute name, that attribute is written more than once and the key is recorded once
  per colliding key. The keys \<open>type\<close> and \<open>Type\<close> both sanitize to \<open>type\<close>, the
  name \<open>data-type\<close> is prohibited, and \<open>applyAttributes\<close> makes no call and keeps no
  record.
\<close>

theorem reserved_collision_counterexample:
  "str ''type'' \<noteq> str ''Type''
   \<and> sanitizeKey (str ''type'') = str ''type'' \<and> sanitizeKey (str ''Type'') = str ''type''
   \<and> domCalls (applyAttributes
         (sampleApp (Some [(str ''type'', JString (str ''a'')), (str ''Type'', JString (str ''b''))]))
         (Some sampleFile) (Some sampleLeaf) (initial hostAttributes)) = []
   \<and> appliedAttributes (applyAttributes
         (sampleApp (Some [(str ''type'', JString (str ''a'')), (str ''Type'', JString (str ''b''))]))
         (Some sampleFile) (Some sampleLeaf) (initial hostAttributes)) 0 = None"
proof -
  have skipped: "keptEntries [(str ''type'', JString (str ''a'')), (str ''Type'', JString (str ''b''))] = []"
    by (simp add: keptEntries_def prohibitedAttributeNames_def dataName_def sanitizeKey_map
        isKeyChar_def str_def)
  have start: "domCalls (initial hostAttributes) = []" "removedBy nm (initial hostAttributes) 0 = []"
    "appliedAttributes (initial hostAttributes) 0 = None" for nm
    by (simp_all add: removedBy_def initial_def)
  have "str ''type'' \<noteq> str ''Type''"
    "sanitizeKey (str ''type'') = str ''type''" "sanitizeKey (str ''Type'') = str ''type''"
    by (simp_all add: sanitizeKey_map isKeyChar_def str_def)
  then show ?thesis
    by (simp add: applyAttributes_closed sample_resolves syncWith_calls syncWith_applied
        attributeWrites_def appliedKeys_def skipped start)
qed

text \<open>
  C9, amended: when two distinct keys of the metadata sanitize to the same key \<open>K\<close> and
  are not skipped (the name \<open>data-K\<close> is not prohibited; in \<open>src/main.ts\<close>, neither is
  the key \<open>position\<close>), \<open>applyAttributes\<close> sets \<open>data-K\<close> once for every key that
  sanitizes to \<open>K\<close>, in iteration order and so at least twice; the attribute ends with
  the serialized value of the last of them, and \<open>K\<close> stands in the record once per such
  key.
\<close>

theorem colliding_keys:
  "(containerEl l = Some el \<and> frontmatterOf ap f = Some fm
      \<and> dataName K \<notin> set prohibitedAttributeNames
      \<and> (k1, v1) \<in> set fm \<and> (k2, v2) \<in> set fm \<and> k1 \<noteq> k2
      \<and> sanitizeKey k1 = K \<and> sanitizeKey k2 = K
    \<longrightarrow> (let hits = filter (\<lambda>(key, v). sanitizeKey key = K) fm;
             after = applyAttributes ap (Some f) (Some l) s
         in 2 \<le> length hits
            \<and> valuesSet el (dataName K) (drop (length (domCalls s)) (domCalls after))
                = map (\<lambda>(key, v). processValue v) hits
            \<and> attributes after el (dataName K) = Some (processValue (snd (last hits)))
            \<and> length (filter ((=) K)
                 (case appliedAttributes after el of None \<Rightarrow> [] | Some keys \<Rightarrow> keys))
                = length hits))
   \<and> (leafContentQuery l = Some el \<and> frontmatterOf ap f = Some fm
      \<and> (k1, v1) \<in> set (restFrontmatter fm) \<and> (k2, v2) \<in> set (restFrontmatter fm) \<and> k1 \<noteq> k2
      \<and> sanitizeKey k1 = K \<and> sanitizeKey k2 = K
    \<longrightarrow> (let hits = filter (\<lambda>(key, v). sanitizeKey key = K) (restFrontmatter fm);
             after = applyAttributes_src ap (Some f) (Some l) s
         in 2 \<le> length hits
            \<and> valuesSet el (dataName K) (drop (length (domCalls s)) (domCalls after))
                = map (\<lambda>(key, v). processValue_src v) hits
            \<and> attributes after el (dataName K) = Some (processValue_src (snd (last hits)))
            \<and> length (filter ((=) K)
                 (case appliedAttributes after el of None \<Rightarrow> [] | Some keys \<Rightarrow> keys))
                = length hits))"
proof (intro conjI impI; elim conjE)
  assume h: "containerEl l = Some el" "frontmatterOf ap f = Some fm"
    "dataName K \<notin> set prohibitedAttributeNames"
    "(k1, v1) \<in> set fm" "(k2, v2) \<in> set fm" "k1 \<noteq> k2" "sanitizeKey k1 = K" "sanitizeKey k2 = K"
  have two: "2 \<le> length (filter (\<lambda>(key, v). sanitizeKey key = K) fm)"
    by (rule two_hits [OF h(4-8)])
  then have ne: "filter (\<lambda>(key, v). sanitizeKey key = K) fm \<noteq> []"
    by auto
  show "let hits = filter (\<lambda>(key, v). sanitizeKey key = K) fm;
             after = applyAttributes ap (Some f) (Some l) s
         in 2 \<le> length hits
            \<and> valuesSet el (dataName K) (drop (length (domCalls s)) (domCalls after))
                = map (\<lambda>(key, v). processValue v) hits
            \<and> attributes after el (dataName K) = Some (processValue (snd (last hits)))
            \<and> length (filter ((=) K)
                 (case appliedAttributes after el of None \<Rightarrow> [] | Some keys \<Rightarrow> keys))
                = length hits"
    unfolding Let_def
    using two applyAttributes_collisions(1) [OF h(1-3), where s = s]
      applyAttributes_collisions(3) [OF h(1-3) ne, where s = s]
      arg_cong [OF applyAttributes_collisions(2) [OF h(1-3), where s = s], of length]
    by simp
next
  assume h: "leafContentQuery l = Some el" "frontmatterOf ap f = Some fm"
    "(k1, v1) \<in> set (restFrontmatter fm)" "(k2, v2) \<in> set (restFrontmatter fm)" "k1 \<noteq> k2"
    "sanitizeKey k1 = K" "sanitizeKey k2 = K"
  have two: "2 \<le> length (filter (\<lambda>(key, v). sanitizeKey key = K) (restFrontmatter fm))"
    by (rule two_hits [OF h(3-7)])
  then have ne: "filter (\<lambda>(key, v). sanitizeKey key = K) (restFrontmatter fm) \<noteq> []"
    by auto
  show "let hits = filter (\<lambda>(key, v). sanitizeKey key = K) (restFrontmatter fm);
             after = applyAttributes_src ap (Some f) (Some l) s
         in 2 \<le> length hits
            \<and> valuesSet el (dataName K) (drop (length (domCalls s)) (domCalls after))
                = map (\<lambda>(key, v). processValue_src v) hits
            \<and> attributes after el (dataName K) = Some (processValue_src (snd (last hits)))
            \<and> length (filter ((=) K)
                 (case appliedAttributes after el of None \<Rightarrow> [] | Some keys \<Rightarrow> keys))
                = length hits"
    unfolding Let_def
    using two applyAttributes_src_collisions(1) [OF h(1-2), where K = K and s = s]
      applyAttributes_src_collisions(3) [OF h(1-2) ne, where s = s]
      arg_cong [OF applyAttributes_src_collisions(2) [OF h(1-2), where K = K and s = s], of length]
    by simp
qed


theorem colliding_keys_witness:
  "attributes (applyAttributes
       (sampleApp (Some [(str ''Due Date'', JString (str ''mon'')), (str ''due-date'', JString (str ''tue''))]))
       (Some sampleFile) (Some sampleLeaf) (initial hostAttributes)) 0 (dataName (str ''due-date''))
     = Some (str ''tue'')
   \<and> valuesSet 0 (dataName (str ''due-date'')) (domCalls (applyAttributes
       (sampleApp (Some [(str ''Due Date'', JString (str ''mon'')), (str ''due-date'', JString (str ''tue''))]))
       (Some sampleFile) (Some sampleLeaf) (initial hostAttributes)))
     = [str ''mon'', str ''tue'']
   \<and> attributes (applyAttributes_src
       (sampleApp (Some [(str ''Due Date'', JString (str ''mon'')), (str ''due-date'', JString (str ''tue''))]))
       (Some sampleFile) (Some sampleLeaf) (initial hostAttributes)) 0 (dataName (str ''due-date''))
     = Some (str ''tue'')
   \<and> valuesSet 0 (dataName (str ''due-date'')) (domCalls (applyAttributes_src
       (sampleApp (Some [(str ''Due Date'', JString (str ''mon'')), (str ''due-date'', JString (str ''tue''))]))
       (Some sampleFile) (Some sampleLeaf) (initial hostAttributes)))
     = [str ''mon'', str ''tue'']"
proof -
  let ?fm = "[(str ''Due Date'', JString (str ''mon'')), (str ''due-date'', JString (str ''tue''))]"
  have keys: "sanitizeKey (str ''Due Date'') = str ''due-date''"
    "sanitizeKey (str ''due-date'') = str ''due-date''"
    "str ''Due Date'' \<noteq> str ''due-date''"
    by (simp_all add: sanitizeKey_map isKeyChar_def str_def)
  have allowed: "dataName (str ''due-date'') \<notin> set prohibitedAttributeNames"
    by (simp add: prohibitedAttributeNames_def dataName_def str_def)
  have rest: "restFrontmatter ?fm = ?fm"
    by (simp add: restFrontmatter_def str_def)
  have hits: "filter (\<lambda>(key, v). sanitizeKey key = str ''due-date'') ?fm = ?fm"
    by (simp add: keys)
  have start: "domCalls (initial hostAttributes) = []"
    by (simp add: initial_def)
  from colliding_keys [where l = sampleLeaf and el = 0 and ap = "sampleApp (Some ?fm)"
      and f = sampleFile and fm = ?fm and K = "str ''due-date''"
      and ?k1.0 = "str ''Due Date''" and ?v1.0 = "JString (str ''mon'')"
      and ?k2.0 = "str ''due-date''" and ?v2.0 = "JString (str ''tue'')"
      and s = "initial hostAttributes"]
  show ?thesis
    by (simp add: sample_resolves allowed keys rest hits start Let_def processValue_cases
        processValue_src_cases)
qed

section \<open>Fan-out of a metadata change\<close>

lemma foldl_cond_filter:
  "foldl (\<lambda>t x. if P x then g t x else t) s xs = foldl g s (filter P xs)"
  by (induction xs arbitrary: s) auto

lemma handleMetadataChange_filter:
  "handleMetadataChange ap file s =
     foldl (\<lambda>t l. applyAttributes ap (Some file) (Some l) t) s
       (filter (showsPath file) (leavesOfTypeMarkdown ap))"
proof -
  have "(\<lambda>t l. if \<not> viewIsMarkdownView l then t
           else (case viewFile l of
                   None \<Rightarrow> t
                 | Some vf \<Rightarrow> if path vf = path file
                     then applyAttributes ap (Some file) (Some l) t else t))
      = (\<lambda>t l. if showsPath file l then applyAttributes ap (Some file) (Some l) t else t)"
    by (auto simp: fun_eq_iff showsPath_def split: option.splits)
  then show ?thesis
    by (simp add: handleMetadataChange_def foldl_cond_filter)
qed

lemma handleMetadataChange_src_filter:
  "handleMetadataChange_src ap file s =
     foldl (\<lambda>t l. applyAttributes_src ap (Some file) (Some l) t) s
       (filter (showsPath file) (leavesOfTypeMarkdown ap))"
proof -
  have "(\<lambda>t l. if \<not> viewIsMarkdownView l then t
           else (case viewFile l of
                   None \<Rightarrow> t
                 | Some vf \<Rightarrow> if path vf = path file
                     then applyAttributes_src ap (Some file) (Some l) t else t))
      = (\<lambda>t l. if showsPath file l then applyAttributes_src ap (Some file) (Some l) t else t)"
    by (auto simp: fun_eq_iff showsPath_def split: option.splits)
  then show ?thesis
    by (simp add: handleMetadataChange_src_def foldl_cond_filter)
qed

lemma syncWith_carries: "carries ws ks (syncWith nm ws ks e s) e"
proof -
  have "attributes (syncWith nm ws ks e s) e n = map_of (rev ws) n" if "n \<in> fst ` set ws" for n
  proof -
    from that obtain v where "map_of (rev ws) n = Some v"
      by (cases "map_of (rev ws) n") (auto simp: map_of_eq_None_iff)
    then show ?thesis
      by (simp add: syncWith_attributes_at)
  qed
  then show ?thesis
    unfolding carries_def by (simp add: syncWith_applied)
qed

lemma syncWith_elsewhere:
  "e \<noteq> el \<Longrightarrow> carries ws' ks' (syncWith nm ws ks el s) e = carries ws' ks' s e"
  by (simp add: carries_def syncWith_applied syncWith_attributes_at)

lemma clearWith_carries: "carries [] [] (clearWith nm e s) e"
  by (simp add: carries_def clearWith_applied)

lemma clearWith_elsewhere:
  "e \<noteq> el \<Longrightarrow> carries ws' ks' (clearWith nm el s) e = carries ws' ks' s e"
  by (simp add: carries_def clearWith_applied clearWith_attributes_at)

text \<open>What an element carries after a change of a file's metadata.\<close>

lemma applyAttributes_step:
  assumes "carries (case frontmatterOf ap f of None \<Rightarrow> [] | Some fm \<Rightarrow> attributeWrites fm)
             (case frontmatterOf ap f of None \<Rightarrow> [] | Some fm \<Rightarrow> appliedKeys fm) s e
           \<or> containerEl l = Some e"
  shows "carries (case frontmatterOf ap f of None \<Rightarrow> [] | Some fm \<Rightarrow> attributeWrites fm)
             (case frontmatterOf ap f of None \<Rightarrow> [] | Some fm \<Rightarrow> appliedKeys fm)
             (applyAttributes ap (Some f) (Some l) s) e"
proof (cases "containerEl l")
  case None
  with assms show ?thesis by (simp add: applyAttributes_closed)
next
  case (Some el)
  show ?thesis
  proof (cases "el = e")
    case True
    with Some show ?thesis
      by (simp add: applyAttributes_closed syncWith_carries clearWith_carries split: option.splits)
  next
    case False
    with Some assms show ?thesis
      by (auto simp: applyAttributes_closed syncWith_elsewhere clearWith_elsewhere
          split: option.splits)
  qed
qed

lemma applyAttributes_src_step:
  assumes "carries (case frontmatterOf ap f of None \<Rightarrow> [] | Some fm \<Rightarrow> attributeWrites_src fm)
             (case frontmatterOf ap f of None \<Rightarrow> [] | Some fm \<Rightarrow> appliedKeys_src fm) s e
           \<or> leafContentQuery l = Some e"
  shows "carries (case frontmatterOf ap f of None \<Rightarrow> [] | Some fm \<Rightarrow> attributeWrites_src fm)
             (case frontmatterOf ap f of None \<Rightarrow> [] | Some fm \<Rightarrow> appliedKeys_src fm)
             (applyAttributes_src ap (Some f) (Some l) s) e"
proof (cases "leafContentQuery l")
  case None
  with assms show ?thesis by (simp add: applyAttributes_src_closed)
next
  case (Some el)
  show ?thesis
  proof (cases "el = e")
    case True
    with Some show ?thesis
      by (simp add: applyAttributes_src_closed syncWith_carries clearWith_carries
          split: option.splits)
  next
    case False
    with Some assms show ?thesis
      by (auto simp: applyAttributes_src_closed syncWith_elsewhere clearWith_elsewhere
          split: option.splits)
  qed
qed

lemma fold_carries:
  assumes step: "\<And>t l. C t \<or> target l = Some e \<Longrightarrow> C (g t l)"
    and "l \<in> set ls" and "target l = Some e"
  shows "C (foldl g s ls)"
  using assms(2)
proof (induction ls rule: rev_induct)
  case Nil
  then show ?case by simp
next
  case (snoc x xs)
  show ?case
  proof (cases "x = l")
    case True
    with assms(3) show ?thesis by (simp add: step)
  next
    case False
    with snoc have "C (foldl g s xs)" by simp
    then show ?thesis by (simp add: step)
  qed
qed

lemma handleMetadataChange_carries:
  assumes "l \<in> set (leavesOfTypeMarkdown ap)" and "showsPath file l" and "containerEl l = Some e"
  shows "carries (case frontmatterOf ap file of None \<Rightarrow> [] | Some fm \<Rightarrow> attributeWrites fm)
             (case frontmatterOf ap file of None \<Rightarrow> [] | Some fm \<Rightarrow> appliedKeys fm)
             (handleMetadataChange ap file s) e"
  unfolding handleMetadataChange_filter
  by (rule fold_carries [where target = containerEl and l = l])
    (use assms in \<open>simp_all add: applyAttributes_step\<close>)

lemma handleMetadataChange_src_carries:
  assumes "l \<in> set (leavesOfTypeMarkdown ap)" and "showsPath file l" and "leafContentQuery l = Some e"
  shows "carries (case frontmatterOf ap file of None \<Rightarrow> [] | Some fm \<Rightarrow> attributeWrites_src fm)
             (case frontmatterOf ap file of None \<Rightarrow> [] | Some fm \<Rightarrow> appliedKeys_src fm)
             (handleMetadataChange_src ap file s) e"
  unfolding handleMetadataChange_src_filter
  by (rule fold_carries [where target = leafContentQuery and l = l])
    (use assms in \<open>simp_all add: applyAttributes_src_step\<close>)

lemma carries_alike:
  assumes "carries ws ks s e1" and "carries ws ks s e2" and "fst ` set ws = dataName ` set ks"
  shows "appliedAttributes s e1 = appliedAttributes s e2"
    and "n \<in> recordedNames s e1 \<Longrightarrow> attributes s e1 n = attributes s e2 n"
proof -
  show "appliedAttributes s e1 = appliedAttributes s e2"
    using assms by (simp add: carries_def)
  assume "n \<in> recordedNames s e1"
  then have "n \<in> fst ` set ws"
    using assms by (auto simp: carries_def recordedNames_def split: if_splits)
  with assms(1,2) have "attributes s e1 n = map_of (rev ws) n" "attributes s e2 n = map_of (rev ws) n"
    unfolding carries_def by blast+
  then show "attributes s e1 n = attributes s e2 n"
    by simp
qed


lemma handleMetadataChange_run:
  "handleMetadataChange ap file (run cs s) =
     run (cs @ map (\<lambda>l. ApplyAttributes ap (Some file) (Some l))
                 (filter (showsPath file) (leavesOfTypeMarkdown ap))) s"
  by (simp add: handleMetadataChange_filter run_def foldl_map)

lemma handleMetadataChange_src_run:
  "handleMetadataChange_src ap file (run_src cs s) =
     run_src (cs @ map (\<lambda>l. ApplyAttributes ap (Some file) (Some l))
                 (filter (showsPath file) (leavesOfTypeMarkdown ap))) s"
  by (simp add: handleMetadataChange_src_filter run_src_def foldl_map)

lemma writes_names_option:
  "fst ` set (case fmo of None \<Rightarrow> [] | Some fm \<Rightarrow> attributeWrites fm) =
     dataName ` set (case fmo of None \<Rightarrow> [] | Some fm \<Rightarrow> appliedKeys fm)"
  "fst ` set (case fmo of None \<Rightarrow> [] | Some fm \<Rightarrow> attributeWrites_src fm) =
     dataName ` set (case fmo of None \<Rightarrow> [] | Some fm \<Rightarrow> appliedKeys_src fm)"
  by (cases fmo; simp add: attributeWrites_names attributeWrites_src_names)+

lemma fan_out_alike:
  assumes "l1 \<in> set (leavesOfTypeMarkdown ap)" "l2 \<in> set (leavesOfTypeMarkdown ap)"
    and "showsPath file l1" "showsPath file l2"
    and "containerEl l1 = Some e1" "containerEl l2 = Some e2"
  shows "appliedAttributes (handleMetadataChange ap file s) e1 =
         appliedAttributes (handleMetadataChange ap file s) e2"
    and "n \<in> recordedNames (handleMetadataChange ap file s) e1 \<Longrightarrow>
         attributes (handleMetadataChange ap file s) e1 n =
         attributes (handleMetadataChange ap file s) e2 n"
  using carries_alike [OF handleMetadataChange_carries [OF assms(1,3,5)]
      handleMetadataChange_carries [OF assms(2,4,6)] writes_names_option(1)]
  by blast+

lemma fan_out_src_alike:
  assumes "l1 \<in> set (leavesOfTypeMarkdown ap)" "l2 \<in> set (leavesOfTypeMarkdown ap)"
    and "showsPath file l1" "showsPath file l2"
    and "leafContentQuery l1 = Some e1" "leafContentQuery l2 = Some e2"
  shows "appliedAttributes (handleMetadataChange_src ap file s) e1 =
         appliedAttributes (handleMetadataChange_src ap file s) e2"
    and "n \<in> recordedNames (handleMetadataChange_src ap file s) e1 \<Longrightarrow>
         attributes (handleMetadataChange_src ap file s) e1 n =
         attributes (handleMetadataChange_src ap file s) e2 n"
  using carries_alike [OF handleMetadataChange_src_carries [OF assms(1,3,5)]
      handleMetadataChange_src_carries [OF assms(2,4,6)] writes_names_option(2)]
  by blast+

lemma fan_out_written:
  assumes "l1 \<in> set (leavesOfTypeMarkdown ap)" "l2 \<in> set (leavesOfTypeMarkdown ap)"
    and "showsPath file l1" "showsPath file l2"
  shows "containerEl l1 = Some e1 \<Longrightarrow> containerEl l2 = Some e2 \<Longrightarrow>
         written (domCalls (handleMetadataChange ap file (run cs (initial A)))) e1 =
         written (domCalls (handleMetadataChange ap file (run cs (initial A)))) e2"
    and "leafContentQuery l1 = Some e1 \<Longrightarrow> leafContentQuery l2 = Some e2 \<Longrightarrow>
         written (domCalls (handleMetadataChange_src ap file (run_src cs (initial A)))) e1 =
         written (domCalls (handleMetadataChange_src ap file (run_src cs (initial A)))) e2"
proof -
  assume "containerEl l1 = Some e1" "containerEl l2 = Some e2"
  from fan_out_alike(1) [OF assms this, of "run cs (initial A)"]
  have "recordedNames (handleMetadataChange ap file (run cs (initial A))) e1 =
        recordedNames (handleMetadataChange ap file (run cs (initial A))) e2"
    by (simp add: recordedNames_def)
  then show "written (domCalls (handleMetadataChange ap file (run cs (initial A)))) e1 =
         written (domCalls (handleMetadataChange ap file (run cs (initial A)))) e2"
    by (simp add: handleMetadataChange_run run_initial_consistent(1))
next
  assume "leafContentQuery l1 = Some e1" "leafContentQuery l2 = Some e2"
  from fan_out_src_alike(1) [OF assms this, of "run_src cs (initial A)"]
  have "recordedNames (handleMetadataChange_src ap file (run_src cs (initial A))) e1 =
        recordedNames (handleMetadataChange_src ap file (run_src cs (initial A))) e2"
    by (simp add: recordedNames_def)
  then show "written (domCalls (handleMetadataChange_src ap file (run_src cs (initial A)))) e1 =
         written (domCalls (handleMetadataChange_src ap file (run_src cs (initial A)))) e2"
    by (simp add: handleMetadataChange_src_run run_src_initial_consistent)
qed

text \<open>
  C8: on a metadata-changed event for a file, \<open>handleMetadataChange\<close> calls
  \<open>applyAttributes\<close>, with that file, on exactly the leaves whose view is a markdown view
  showing a file of the same path (whatever file object it is), in their order. Hence
  when two leaves show the file, their target elements end with the same
  applied-attribute record and the same value for every recorded attribute, and, in any
  run from start-up, with the same set of attributes written by the plugin. In both
  source files.
\<close>

theorem metadata_change_fans_out:
  "handleMetadataChange ap f s =
     foldl (\<lambda>t l. applyAttributes ap (Some f) (Some l) t) s
       (filter (showsPath f) (leavesOfTypeMarkdown ap))
   \<and> handleMetadataChange_src ap f s =
     foldl (\<lambda>t l. applyAttributes_src ap (Some f) (Some l) t) s
       (filter (showsPath f) (leavesOfTypeMarkdown ap))
   \<and> (l1 \<in> set (leavesOfTypeMarkdown ap) \<and> l2 \<in> set (leavesOfTypeMarkdown ap)
      \<and> showsPath f l1 \<and> showsPath f l2
      \<and> containerEl l1 = Some e1 \<and> containerEl l2 = Some e2
    \<longrightarrow> appliedAttributes (handleMetadataChange ap f s) e1 =
          appliedAttributes (handleMetadataChange ap f s) e2
      \<and> (\<forall>n. n \<in> recordedNames (handleMetadataChange ap f s) e1 \<longrightarrow>
            attributes (handleMetadataChange ap f s) e1 n =
            attributes (handleMetadataChange ap f s) e2 n)
      \<and> written (domCalls (handleMetadataChange ap f (run cs (initial A)))) e1 =
          written (domCalls (handleMetadataChange ap f (run cs (initial A)))) e2)
   \<and> (l1 \<in> set (leavesOfTypeMarkdown ap) \<and> l2 \<in> set (leavesOfTypeMarkdown ap)
      \<and> showsPath f l1 \<and> showsPath f l2
      \<and> leafContentQuery l1 = Some e1 \<and> leafContentQuery l2 = Some e2
    \<longrightarrow> appliedAttributes (handleMetadataChange_src ap f s) e1 =
          appliedAttributes (handleMetadataChange_src ap f s) e2
      \<and> (\<forall>n. n \<in> recordedNames (handleMetadataChange_src ap f s) e1 \<longrightarrow>
            attributes (handleMetadataChange_src ap f s) e1 n =
            attributes (handleMetadataChange_src ap f s) e2 n)
      \<and> written (domCalls (handleMetadataChange_src ap f (run_src cs (initial A)))) e1 =
          written (domCalls (handleMetadataChange_src ap f (run_src cs (initial A)))) e2)"
  using handleMetadataChange_filter [of ap f s] handleMetadataChange_src_filter [of ap f s]
    fan_out_alike(1) [of l1 ap l2 f e1 e2 s] fan_out_alike(2) [of l1 ap l2 f e1 e2 _ s]
    fan_out_src_alike(1) [of l1 ap l2 f e1 e2 s]
    fan_out_src_alike(2) [of l1 ap l2 f e1 e2 _ s]
    fan_out_written [of l1 ap l2 f e1 e2 cs A]
  by blast


theorem metadata_change_fans_out_witness:
  "appliedAttributes
      (handleMetadataChange (sampleApp (Some sampleFrontmatter)) sampleFile (initial hostAttributes)) 1
     = Some [str ''tags'', str ''start'', str ''end'', str ''insurance'']
   \<and> attributes
      (handleMetadataChange (sampleApp (Some sampleFrontmatter)) sampleFile (initial hostAttributes)) 1
      (dataName (str ''insurance'')) = Some (str ''true'')
   \<and> appliedAttributes
      (handleMetadataChange_src (sampleApp (Some sampleFrontmatter)) sampleFile (initial hostAttributes)) 1
     = Some [str ''tags'', str ''start'', str ''end'', str ''insurance'']
   \<and> attributes
      (handleMetadataChange_src (sampleApp (Some sampleFrontmatter)) sampleFile (initial hostAttributes)) 1
      (dataName (str ''insurance'')) = Some (str ''true'')"
proof -
  let ?ap = "sampleApp (Some sampleFrontmatter)"
  let ?s = "handleMetadataChange ?ap sampleFile (initial hostAttributes)"
  let ?t = "handleMetadataChange_src ?ap sampleFile (initial hostAttributes)"
  have leaves: "sampleLeaf \<in> set (leavesOfTypeMarkdown ?ap)"
    "sampleLeafAgain \<in> set (leavesOfTypeMarkdown ?ap)"
    by (simp_all add: sampleApp_def)
  have shown: "showsPath sampleFile sampleLeaf" "showsPath sampleFile sampleLeafAgain"
    by (simp_all add: showsPath_def sampleLeaf_def sampleLeafAgain_def sampleFile_def
        sampleFileAgain_def)
  have both: "filter (showsPath sampleFile) (leavesOfTypeMarkdown ?ap) = [sampleLeaf, sampleLeafAgain]"
    using shown by (simp add: sampleApp_def)
  note fan = metadata_change_fans_out [where ap = ?ap and f = sampleFile
      and s = "initial hostAttributes" and ?l1.0 = sampleLeaf and ?l2.0 = sampleLeafAgain
      and ?e1.0 = 0 and ?e2.0 = 1 and cs = "[]" and A = hostAttributes]
  have name: "dataName (str ''insurance'') = str ''data-insurance''"
    by (simp add: dataName_def str_def)
  have first: "appliedAttributes ?s 0 = Some [str ''tags'', str ''start'', str ''end'', str ''insurance'']"
    "attributes ?s 0 (dataName (str ''insurance'')) = Some (str ''true'')"
    by (simp_all add: fan both applyAttributes_closed sample_resolves syncWith_applied
        syncWith_attributes sample_appliedKeys sample_writes name)
  have first_src: "appliedAttributes ?t 0 = Some [str ''tags'', str ''start'', str ''end'', str ''insurance'']"
    "attributes ?t 0 (dataName (str ''insurance'')) = Some (str ''true'')"
    by (simp_all add: fan both applyAttributes_src_closed sample_resolves syncWith_applied
        syncWith_attributes sample_appliedKeys sample_writes name)
  have recorded: "dataName (str ''insurance'') \<in> recordedNames ?s 0"
    "dataName (str ''insurance'') \<in> recordedNames ?t 0"
    by (simp_all add: recordedNames_def first first_src)
  from fan leaves shown sample_resolves(1-4)
  have "appliedAttributes ?s 0 = appliedAttributes ?s 1"
    "\<forall>n. n \<in> recordedNames ?s 0 \<longrightarrow> attributes ?s 0 n = attributes ?s 1 n"
    "appliedAttributes ?t 0 = appliedAttributes ?t 1"
    "\<forall>n. n \<in> recordedNames ?t 0 \<longrightarrow> attributes ?t 0 n = attributes ?t 1 n"
    by blast+
  with first first_src recorded show ?thesis
    by metis
qed

section \<open>Absent inputs\<close>

lemma clearWith_identity: "clearWith nm el s = s \<longleftrightarrow> appliedAttributes s el = None"
proof
  assume "clearWith nm el s = s"
  then have "appliedAttributes (clearWith nm el s) el = appliedAttributes s el" by simp
  then show "appliedAttributes s el = None" by (simp add: clearWith_applied)
next
  assume "appliedAttributes s el = None"
  then show "clearWith nm el s = s" by (rule clearWith_untracked)
qed

lemma removedBy_explicit:
  "removedBy removableNames s el =
     (case appliedAttributes s el of
        None \<Rightarrow> []
      | Some keys \<Rightarrow> filter (\<lambda>name. name \<notin> set prohibitedAttributeNames) (map dataName keys))"
  "removedBy (map dataName) s el =
     (case appliedAttributes s el of None \<Rightarrow> [] | Some keys \<Rightarrow> map dataName keys)"
  by (simp_all add: removedBy_def removableNames_def split: option.splits)

lemma clearAttributes_effect:
  "appliedAttributes (clearAttributes el s) = (appliedAttributes s)(el := None)"
  "domCalls (clearAttributes el s) =
     domCalls s @ map (RemoveAttribute el)
       (case appliedAttributes s el of
          None \<Rightarrow> []
        | Some keys \<Rightarrow> filter (\<lambda>name. name \<notin> set prohibitedAttributeNames) (map dataName keys))"
  "attributes (clearAttributes el s) e n =
     (if e = el \<and> n \<in> set (case appliedAttributes s el of
          None \<Rightarrow> []
        | Some keys \<Rightarrow> filter (\<lambda>name. name \<notin> set prohibitedAttributeNames) (map dataName keys))
      then None else attributes s e n)"
  "clearAttributes el s = s \<longleftrightarrow> appliedAttributes s el = None"
  by (simp_all only: clearAttributes_closed clearWith_applied clearWith_calls
      clearWith_attributes_at clearWith_identity removedBy_explicit)

lemma clearAttributes_src_effect:
  "appliedAttributes (clearAttributes_src el s) = (appliedAttributes s)(el := None)"
  "domCalls (clearAttributes_src el s) =
     domCalls s @ map (RemoveAttribute el)
       (case appliedAttributes s el of None \<Rightarrow> [] | Some keys \<Rightarrow> map dataName keys)"
  "attributes (clearAttributes_src el s) e n =
     (if e = el \<and> n \<in> set (case appliedAttributes s el of
          None \<Rightarrow> [] | Some keys \<Rightarrow> map dataName keys)
      then None else attributes s e n)"
  "clearAttributes_src el s = s \<longleftrightarrow> appliedAttributes s el = None"
  by (simp_all only: clearAttributes_src_closed clearWith_applied clearWith_calls
      clearWith_attributes_at clearWith_identity removedBy_explicit)

lemma applyAttributes_absent_metadata:
  "containerEl l = Some el \<Longrightarrow> frontmatterOf ap f = None \<Longrightarrow>
     applyAttributes ap (Some f) (Some l) s = clearAttributes el s"
  "leafContentQuery l = Some el \<Longrightarrow> frontmatterOf ap f = None \<Longrightarrow>
     applyAttributes_src ap (Some f) (Some l) s = clearAttributes_src el s"
  by (simp_all add: applyAttributes_closed applyAttributes_src_closed clearAttributes_closed
      clearAttributes_src_closed)

lemma applyAttributes_absent_input:
  "applyAttributes ap None lf s = s"
  "applyAttributes ap fl None s = s"
  "containerEl l = None \<Longrightarrow> applyAttributes ap fl (Some l) s = s"
  "applyAttributes_src ap None lf s = s"
  "applyAttributes_src ap fl None s = s"
  "leafContentQuery l = None \<Longrightarrow> applyAttributes_src ap fl (Some l) s = s"
  by (simp_all add: applyAttributes_closed applyAttributes_src_closed split: option.splits)

text \<open>
  C7, as stated: a call of \<open>applyAttributes\<close> with absent metadata leaves the
  applied-attribute table unchanged. It clears first: on an element that holds the
  record \<open>status\<close>, the call with no frontmatter deletes the record and removes
  \<open>data-status\<close>.
\<close>

theorem absent_metadata_counterexample:
  "appliedAttributes
      (run [ApplyAttributes (sampleApp (Some [(str ''Status'', JString (str ''done''))]))
              (Some sampleFile) (Some sampleLeaf)] (initial hostAttributes)) 0 = Some [str ''status'']
   \<and> frontmatterOf (sampleApp None) sampleFile = None
   \<and> appliedAttributes (applyAttributes (sampleApp None) (Some sampleFile) (Some sampleLeaf)
        (run [ApplyAttributes (sampleApp (Some [(str ''Status'', JString (str ''done''))]))
              (Some sampleFile) (Some sampleLeaf)] (initial hostAttributes))) 0 = None
   \<and> appliedAttributes (applyAttributes_src (sampleApp None) (Some sampleFile) (Some sampleLeaf)
        (run_src [ApplyAttributes (sampleApp (Some [(str ''Status'', JString (str ''done''))]))
              (Some sampleFile) (Some sampleLeaf)] (initial hostAttributes))) 0 = None"
  by (simp add: run_def run_src_def applyAttributes_closed applyAttributes_src_closed
      sample_resolves syncWith_applied clearWith_applied status_keys)

text \<open>
  C7, amended: \<open>applyAttributes\<close> with an absent file, an absent leaf or a leaf whose
  target element does not resolve returns the state as it was: no call to an attribute
  primitive, no change to any attribute or to the table. \<open>applyAttributes\<close> with
  absent metadata is \<open>clearAttributes\<close> on the target element. \<open>clearAttributes\<close>
  makes no \<open>setAttribute\<close> call; it removes the attributes that the element's record
  lists (but for prohibited names, in the file that has them), touches no other
  attribute and no other element, and deletes the element's record, leaving the rest of
  the table as it was. So it returns the state as it was exactly when the element has no
  record. In both source files; no path of either raises.
\<close>

theorem absent_input_no_op:
  "applyAttributes ap None lf s = s
   \<and> applyAttributes ap fl None s = s
   \<and> (containerEl l = None \<longrightarrow> applyAttributes ap fl (Some l) s = s)
   \<and> (containerEl l = Some el \<and> frontmatterOf ap f = None \<longrightarrow>
        applyAttributes ap (Some f) (Some l) s = clearAttributes el s)
   \<and> (clearAttributes el s = s \<longleftrightarrow> appliedAttributes s el = None)
   \<and> appliedAttributes (clearAttributes el s) = (appliedAttributes s)(el := None)
   \<and> domCalls (clearAttributes el s) =
        domCalls s @ map (RemoveAttribute el)
          (case appliedAttributes s el of
             None \<Rightarrow> []
           | Some keys \<Rightarrow> filter (\<lambda>name. name \<notin> set prohibitedAttributeNames) (map dataName keys))
   \<and> attributes (clearAttributes el s) e n =
        (if e = el \<and> n \<in> set (case appliedAttributes s el of
             None \<Rightarrow> []
           | Some keys \<Rightarrow> filter (\<lambda>name. name \<notin> set prohibitedAttributeNames) (map dataName keys))
         then None else attributes s e n)
   \<and> applyAttributes_src ap None lf s = s
   \<and> applyAttributes_src ap fl None s = s
   \<and> (leafContentQuery l = None \<longrightarrow> applyAttributes_src ap fl (Some l) s = s)
   \<and> (leafContentQuery l = Some el \<and> frontmatterOf ap f = None \<longrightarrow>
        applyAttributes_src ap (Some f) (Some l) s = clearAttributes_src el s)
   \<and> (clearAttributes_src el s = s \<longleftrightarrow> appliedAttributes s el = None)
   \<and> appliedAttributes (clearAttributes_src el s) = (appliedAttributes s)(el := None)
   \<and> domCalls (clearAttributes_src el s) =
        domCalls s @ map (RemoveAttribute el)
          (case appliedAttributes s el of None \<Rightarrow> [] | Some keys \<Rightarrow> map dataName keys)
   \<and> attributes (clearAttributes_src el s) e n =
        (if e = el \<and> n \<in> set (case appliedAttributes s el of
             None \<Rightarrow> [] | Some keys \<Rightarrow> map dataName keys)
         then None else attributes s e n)"
  by (intro conjI impI; (elim conjE)?)
    (simp_all only: applyAttributes_absent_input applyAttributes_absent_metadata
      clearAttributes_effect clearAttributes_src_effect)

theorem absent_input_no_op_witness:
  "applyAttributes (sampleApp None) (Some sampleFile)
      (Some (sampleLeaf\<lparr>containerEl := None\<rparr>)) (initial hostAttributes) = initial hostAttributes
   \<and> clearAttributes 0 (initial hostAttributes) = initial hostAttributes
   \<and> applyAttributes (sampleApp None) (Some sampleFile) (Some sampleLeaf) (initial hostAttributes)
       = initial hostAttributes
   \<and> appliedAttributes (applyAttributes (sampleApp None) (Some sampleFile) (Some sampleLeaf)
        (applyAttributes (sampleApp (Some [(str ''Status'', JString (str ''done''))]))
           (Some sampleFile) (Some sampleLeaf) (initial hostAttributes))) 0 = None
   \<and> attributes (applyAttributes (sampleApp None) (Some sampleFile) (Some sampleLeaf)
        (applyAttributes (sampleApp (Some [(str ''Status'', JString (str ''done''))]))
           (Some sampleFile) (Some sampleLeaf) (initial hostAttributes))) 0
        (dataName (str ''status'')) = None
   \<and> applyAttributes (sampleApp None) (Some sampleFile) (Some sampleLeaf)
        (applyAttributes (sampleApp (Some [(str ''Status'', JString (str ''done''))]))
           (Some sampleFile) (Some sampleLeaf) (initial hostAttributes))
       \<noteq> applyAttributes (sampleApp (Some [(str ''Status'', JString (str ''done''))]))
           (Some sampleFile) (Some sampleLeaf) (initial hostAttributes)
   \<and> applyAttributes_src (sampleApp None) (Some sampleFile)
      (Some (sampleLeaf\<lparr>leafContentQuery := None\<rparr>)) (initial hostAttributes) = initial hostAttributes
   \<and> clearAttributes_src 0 (initial hostAttributes) = initial hostAttributes
   \<and> applyAttributes_src (sampleApp None) (Some sampleFile) (Some sampleLeaf) (initial hostAttributes)
       = initial hostAttributes
   \<and> appliedAttributes (applyAttributes_src (sampleApp None) (Some sampleFile) (Some sampleLeaf)
        (applyAttributes_src (sampleApp (Some [(str ''Status'', JString (str ''done''))]))
           (Some sampleFile) (Some sampleLeaf) (initial hostAttributes))) 0 = None
   \<and> attributes (applyAttributes_src (sampleApp None) (Some sampleFile) (Some sampleLeaf)
        (applyAttributes_src (sampleApp (Some [(str ''Status'', JString (str ''done''))]))
           (Some sampleFile) (Some sampleLeaf) (initial hostAttributes))) 0
        (dataName (str ''status'')) = None"
proof -
  let ?once = "applyAttributes (sampleApp (Some [(str ''Status'', JString (str ''done''))]))
           (Some sampleFile) (Some sampleLeaf) (initial hostAttributes)"
  let ?once_src = "applyAttributes_src (sampleApp (Some [(str ''Status'', JString (str ''done''))]))
           (Some sampleFile) (Some sampleLeaf) (initial hostAttributes)"
  have none: "appliedAttributes (initial hostAttributes) 0 = None"
    by (simp add: initial_def)
  have gone: "containerEl (sampleLeaf\<lparr>containerEl := None\<rparr>) = None"
    "leafContentQuery (sampleLeaf\<lparr>leafContentQuery := None\<rparr>) = None"
    by simp_all
  have absent: "frontmatterOf (sampleApp None) sampleFile = None"
    by (simp add: sample_resolves)
  have recorded: "appliedAttributes ?once 0 = Some [str ''status'']"
    "appliedAttributes ?once_src 0 = Some [str ''status'']"
    by (simp_all add: applyAttributes_closed applyAttributes_src_closed sample_resolves
        syncWith_applied status_keys)
  have allowed: "dataName (str ''status'') \<notin> set prohibitedAttributeNames"
    by (simp add: prohibitedAttributeNames_def dataName_def str_def)
  note t = absent_input_no_op [where el = 0 and ap = "sampleApp None" and f = sampleFile
      and fl = "Some sampleFile" and e = 0 and n = "dataName (str ''status'')"]
  note start = t [where s = "initial hostAttributes"]
  note later = t [where s = ?once and l = sampleLeaf]
  note later_src = t [where s = ?once_src and l = sampleLeaf]
  have a: "applyAttributes (sampleApp None) (Some sampleFile)
      (Some (sampleLeaf\<lparr>containerEl := None\<rparr>)) (initial hostAttributes) = initial hostAttributes"
    "applyAttributes_src (sampleApp None) (Some sampleFile)
      (Some (sampleLeaf\<lparr>leafContentQuery := None\<rparr>)) (initial hostAttributes) = initial hostAttributes"
    using start [where l = "sampleLeaf\<lparr>containerEl := None\<rparr>"]
      start [where l = "sampleLeaf\<lparr>leafContentQuery := None\<rparr>"] gone by blast+
  have b: "clearAttributes 0 (initial hostAttributes) = initial hostAttributes"
    "clearAttributes_src 0 (initial hostAttributes) = initial hostAttributes"
    using start [where l = sampleLeaf] none by blast+
  have c: "applyAttributes (sampleApp None) (Some sampleFile) (Some sampleLeaf) (initial hostAttributes)
       = initial hostAttributes"
    "applyAttributes_src (sampleApp None) (Some sampleFile) (Some sampleLeaf) (initial hostAttributes)
       = initial hostAttributes"
    using start [where l = sampleLeaf] b absent sample_resolves(1,2) by simp_all
  have d: "applyAttributes (sampleApp None) (Some sampleFile) (Some sampleLeaf) ?once
       = clearAttributes 0 ?once"
    "applyAttributes_src (sampleApp None) (Some sampleFile) (Some sampleLeaf) ?once_src
       = clearAttributes_src 0 ?once_src"
    using later later_src absent sample_resolves(1,2) by blast+
  have e: "appliedAttributes (clearAttributes 0 ?once) 0 = None"
    "appliedAttributes (clearAttributes_src 0 ?once_src) 0 = None"
    using later later_src by simp_all
  have f: "attributes (clearAttributes 0 ?once) 0 (dataName (str ''status'')) = None"
    "attributes (clearAttributes_src 0 ?once_src) 0 (dataName (str ''status'')) = None"
    using later later_src recorded allowed by simp_all
  have g: "clearAttributes 0 ?once \<noteq> ?once"
    using later recorded by simp
  from a b c d e f g show ?thesis by simp
qed

end
